theory Spec2Isabelle
  imports Main
begin

section \<open>LoggingSubprocess: a shallow embedding of \<^verbatim>\<open>openjd/sessions/_subprocess.py\<close>\<close>

text \<open>
  The class \<^verbatim>\<open>LoggingSubprocess\<close> starts one child process, forwards its merged output to
  a logger line by line, and offers \<^verbatim>\<open>notify\<close> and \<^verbatim>\<open>terminate\<close> to cancel it.
  The embedding keeps the object's private attributes in a record, threads the log and
  every call that leaves the object (the callback, \<^verbatim>\<open>Popen\<close>, the signal relay) through
  a list of events, and takes what the operating system answers from an environment record.
  The method \<^verbatim>\<open>run\<close> is a small-step machine, one step per statement that writes a
  field or leaves the object, so that what another thread can observe between two
  statements is a state of the model.
\<close>

subsection \<open>Host, principals, exceptions\<close>

text \<open>
  \<^verbatim>\<open>os.name\<close> of the interpreter. The module needs Python 3.9 (it writes
  \<^verbatim>\<open>list[str]()\<close>), and CPython 3 knows two values, \<^verbatim>\<open>"posix"\<close> and \<^verbatim>\<open>"nt"\<close>.
\<close>

datatype os_name = Posix | Windows

text \<open>
  Modelled from the spec: \<^verbatim>\<open>is_posix\<close> and \<^verbatim>\<open>is_windows\<close> live in the module
  \<^verbatim>\<open>_os_checker\<close>, which is not among the sources; the spec speaks of the host being
  POSIX or Windows, and they are taken to test \<^verbatim>\<open>os.name\<close> for that.
\<close>

definition is_posix :: "os_name \<Rightarrow> bool" where
  "is_posix os = (os = Posix)"

definition is_windows :: "os_name \<Rightarrow> bool" where
  "is_windows os = (os = Windows)"

text \<open>
  The principal. \<^verbatim>\<open>_session_user\<close> is not among the sources; the class reads one
  attribute of it, the account name \<^verbatim>\<open>user\<close>, and tests its class with
  \<^verbatim>\<open>isinstance\<close>. \<open>OtherSessionUser\<close> stands for an instance of any further subclass of
  \<^verbatim>\<open>SessionUser\<close>.
\<close>

datatype session_user =
    PosixSessionUser string
  | WindowsSessionUser string
  | OtherSessionUser string

fun user_name :: "session_user \<Rightarrow> string" where
  "user_name (PosixSessionUser n) = n"
| "user_name (WindowsSessionUser n) = n"
| "user_name (OtherSessionUser n) = n"

fun isinstance_PosixSessionUser :: "session_user \<Rightarrow> bool" where
  "isinstance_PosixSessionUser (PosixSessionUser n) = True"
| "isinstance_PosixSessionUser (WindowsSessionUser n) = False"
| "isinstance_PosixSessionUser (OtherSessionUser n) = False"

fun isinstance_WindowsSessionUser :: "session_user \<Rightarrow> bool" where
  "isinstance_WindowsSessionUser (PosixSessionUser n) = False"
| "isinstance_WindowsSessionUser (WindowsSessionUser n) = True"
| "isinstance_WindowsSessionUser (OtherSessionUser n) = False"

text \<open>
  The exceptions the module raises or lets through, each with its message.
  \<open>OSError\<close> stands for \<^verbatim>\<open>OSError\<close> and its subclasses (\<^verbatim>\<open>FileNotFoundError\<close>,
  \<^verbatim>\<open>PermissionError\<close>), \<open>OtherError\<close> for any other exception that is not an
  \<^verbatim>\<open>OSError\<close>, named by its class.
\<close>

datatype exc =
    ValueError string
  | RuntimeError string
  | NotImplementedError string
  | AssertionError
  | UnicodeDecodeError
  | OSError string
  | OtherError string

subsection \<open>The process object and the object's state\<close>

text \<open>
  What the operating system makes of a spawn: the child's process id, what the child
  writes to its merged output, and the exit status the system reports once the child has
  ended (\<open>None\<close> while it is alive).

  The output is the decoded text of the bytes the child writes, before any newline
  translation. It is taken as a finite text that is in the pipe when \<^verbatim>\<open>run\<close> reads:
  when the child writes does not change what \<^verbatim>\<open>readline\<close> returns, only how long it
  blocks. \<open>child_decode_error\<close> is \<open>None\<close> when every byte decodes in the object's
  encoding. Otherwise the text stream, which decodes the pipe chunk by chunk, raises
  \<^verbatim>\<open>UnicodeDecodeError\<close> in the read that fetches the chunk with the invalid bytes;
  \<open>Some k\<close> says that \<open>k\<close> reads can return before that read (which read it is depends on
  how the bytes arrive in the pipe), and \<open>child_output\<close> is then the text those reads draw
  on. \<^verbatim>\<open>getuser()\<close> is taken to return.
\<close>

record child =
  child_pid :: int
  child_output :: string
  child_decode_error :: "nat option"
  child_ended :: "int option"

text \<open>
  \<^verbatim>\<open>Popen(..., encoding=...)\<close> wraps the pipe in \<^verbatim>\<open>io.TextIOWrapper(stdout, encoding=...)\<close>,
  whose \<^verbatim>\<open>newline\<close> is \<^verbatim>\<open>None\<close>: universal newlines. A carriage return followed by a
  newline, and a carriage return alone, reach the reader as one newline. The flag of
  \<open>translate\<close> says that the character before was a carriage return.
\<close>

fun translate :: "bool \<Rightarrow> string \<Rightarrow> string" where
  "translate cr [] = []"
| "translate cr (c # s) =
     (if c = CHR 0x0D then CHR 0x0A # translate True s
      else if c = CHR 0x0A \<and> cr then translate False s
      else c # translate False s)"

definition universal_newlines :: "string \<Rightarrow> string" where
  "universal_newlines s = translate False s"

text \<open>
  The \<^verbatim>\<open>Popen\<close> object: \<^verbatim>\<open>pid\<close>, \<^verbatim>\<open>returncode\<close> (\<^verbatim>\<open>None\<close> until \<^verbatim>\<open>poll\<close> or
  \<^verbatim>\<open>wait\<close> has seen the child ended), the text \<^verbatim>\<open>stdout\<close> has still to deliver (after
  newline translation), the reads left before the decoder fails, the lock
  \<^verbatim>\<open>_waitpid_lock\<close> (held or not), and the system's view of the child behind the object.
\<close>

record popen =
  proc_pid :: int
  returncode :: "int option"
  stdout :: string
  decode_error :: "nat option"
  waitpid_lock :: bool
  os_status :: "int option"

definition Popen :: "child \<Rightarrow> popen" where
  "Popen c = \<lparr>proc_pid = child_pid c, returncode = None,
              stdout = universal_newlines (child_output c),
              decode_error = child_decode_error c, waitpid_lock = False,
              os_status = child_ended c\<rparr>"

text \<open>
  \<^verbatim>\<open>Popen.poll()\<close> of the standard library; it never blocks and returns \<^verbatim>\<open>returncode\<close>.
  With \<^verbatim>\<open>returncode\<close> unset it asks the system and sets \<^verbatim>\<open>returncode\<close> when the child has
  ended. On POSIX it first tries \<^verbatim>\<open>_waitpid_lock\<close> without waiting, and when another
  thread holds the lock (it is inside \<^verbatim>\<open>wait()\<close>) it returns \<^verbatim>\<open>None\<close> and knows nothing
  yet, whether the child has ended or not. On Windows there is no such lock.
\<close>

definition poll :: "os_name \<Rightarrow> popen \<Rightarrow> popen" where
  "poll host p =
     (case returncode p of
        Some c \<Rightarrow> p
      | None \<Rightarrow>
          if host = Posix \<and> waitpid_lock p then p
          else p\<lparr>returncode := os_status p\<rparr>)"

text \<open>
  The private attributes of the object: \<^verbatim>\<open>_x\<close> is the field \<open>p_x\<close>. The logger is the
  event list of the world below. The callback is opaque: \<open>p_callback\<close> says whether one was
  given, and a call of it is the event \<open>Callback\<close>.
\<close>

record handle =
  p_args :: "string list"
  p_encoding :: string
  p_user :: "session_user option"
  p_callback :: bool
  p_process :: "popen option"
  p_start_failed :: bool
  p_has_started :: bool

datatype event =
    Info string
  | Warning string
  | Callback
  | Popen_call "string list"
  | Relay_call "string list"
  | Kill_windows_process_tree int bool

text \<open>
  What the module reads from outside itself: \<^verbatim>\<open>os.name\<close>, \<^verbatim>\<open>getuser()\<close>, the
  module constant \<^verbatim>\<open>POSIX_SIGNAL_SUBPROC_SCRIPT\<close> (a path under the installed package), the
  outcome of \<^verbatim>\<open>Popen(**popen_args)\<close> and of \<^verbatim>\<open>subprocess.run(cmd, ...)\<close> (exit status and
  decoded output of the relay) for a command, the encoded job wrapper
  \<^verbatim>\<open>encode_to_base64(generate_start_job_wrapper(args, user))\<close>, and the two quoting
  functions of the standard library that only the log lines use.
\<close>

record env =
  os :: os_name
  getuser :: string
  POSIX_SIGNAL_SUBPROC_SCRIPT :: string
  popen_result :: "string list \<Rightarrow> exc + child"
  relay_result :: "string list \<Rightarrow> exc + int \<times> string"
  start_job_wrapper :: "string list \<Rightarrow> session_user option \<Rightarrow> exc + string"
  shlex_join :: "string list \<Rightarrow> string"
  list2cmdline :: "string list \<Rightarrow> string"

subsection \<open>Strings\<close>

definition apostrophe :: string where
  "apostrophe = [CHR 0x27]"

definition newline :: char where
  "newline = CHR 0x0A"

definition carriage_return :: char where
  "carriage_return = CHR 0x0D"

text \<open>\<^verbatim>\<open>str\<close> of an integer (decimal) and of a boolean.\<close>

definition digit :: "nat \<Rightarrow> char" where
  "digit n = ''0123456789'' ! n"

function str_nat :: "nat \<Rightarrow> string" where
  "str_nat n = (if n < 10 then [digit n] else str_nat (n div 10) @ [digit (n mod 10)])"
  by pat_completeness auto
termination
  by (relation "measure id") auto

definition str_int :: "int \<Rightarrow> string" where
  "str_int i = (if i < 0 then CHR ''-'' # str_nat (nat (- i)) else str_nat (nat i))"

definition str_bool :: "bool \<Rightarrow> string" where
  "str_bool b = (if b then ''True'' else ''False'')"

text \<open>
  \<^verbatim>\<open>stream.readline(n)\<close> of a text stream, as the standard library documents it, on
  the text the stream has still to deliver (newlines translated): the text up to and with
  the next newline, or to the end of the stream when there is none, cut to at most \<open>n\<close>
  characters; the empty string only at the end of the stream. The result is the text read
  and the text left in the stream.
\<close>

definition readline :: "nat \<Rightarrow> string \<Rightarrow> string \<times> string" where
  "readline n s =
     (let line = takeWhile (\<lambda>c. c \<noteq> newline) s;
          whole = (if length line < length s then line @ [newline] else line);
          got = take n whole
      in (got, drop (length got) s))"

text \<open>\<^verbatim>\<open>line.rstrip(chars)\<close>: drops every trailing character that is in \<open>chars\<close>.\<close>

definition rstrip :: "string \<Rightarrow> string \<Rightarrow> string" where
  "rstrip chars s = rev (dropWhile (\<lambda>c. c \<in> set chars) (rev s))"

definition LOG_LINE_MAX_LENGTH :: nat where
  "LOG_LINE_MAX_LENGTH = 64 * 1000"

text \<open>
  The read of line 159 raises instead of returning: the decoder has invalid bytes ahead,
  and either no read is left before them, or the text decoded so far holds neither a
  newline nor \<open>n\<close> characters, so that the stream must fetch more.
\<close>

definition decoding_fails :: "nat \<Rightarrow> popen \<Rightarrow> bool" where
  "decoding_fails n p =
     (case decode_error p of
        None \<Rightarrow> False
      | Some k \<Rightarrow> k = 0 \<or> \<not> (newline \<in> set (stdout p) \<or> n \<le> length (stdout p)))"

subsection \<open>Construction and the accessors\<close>

text \<open>\<^verbatim>\<open>__init__\<close>, lines 60 to 83: three checks, then the fields.\<close>

definition init ::
  "env \<Rightarrow> string list \<Rightarrow> string \<Rightarrow> session_user option \<Rightarrow> bool \<Rightarrow> exc + handle" where
  "init e args encoding user callback =
     (if length args < 1 then
        Inl (ValueError (apostrophe @ ''args'' @ apostrophe @
                         '' kwarg must be a sequence of at least one element''))
      else if (case user of None \<Rightarrow> False
               | Some u \<Rightarrow> os e = Posix \<and> \<not> isinstance_PosixSessionUser u) then
        Inl (ValueError (''Argument '' @ apostrophe @ ''user'' @ apostrophe @
                         '' must be a PosixSessionUser on posix systems.''))
      else if (case user of None \<Rightarrow> False
               | Some u \<Rightarrow> is_windows (os e) \<and> \<not> isinstance_WindowsSessionUser u) then
        Inl (ValueError (''Argument '' @ apostrophe @ ''user'' @ apostrophe @
                         '' must be a WindowsSessionUser on Windows systems.''))
      else
        Inr \<lparr>p_args = args, p_encoding = encoding, p_user = user, p_callback = callback,
             p_process = None, p_start_failed = False, p_has_started = False\<rparr>)"

definition pid :: "handle \<Rightarrow> int option" where
  "pid h = (case p_process h of Some p \<Rightarrow> Some (proc_pid p) | None \<Rightarrow> None)"

definition exit_code :: "handle \<Rightarrow> int option" where
  "exit_code h = (case p_process h of Some p \<Rightarrow> returncode p | None \<Rightarrow> None)"

definition is_running :: "handle \<Rightarrow> bool" where
  "is_running h = (case p_process h of Some p \<Rightarrow> returncode p = None | None \<Rightarrow> False)"

definition has_started :: "handle \<Rightarrow> bool" where
  "has_started h = p_has_started h"

definition failed_to_start :: "handle \<Rightarrow> bool" where
  "failed_to_start h = p_start_failed h"

subsection \<open>Spawning\<close>

text \<open>
  \<^verbatim>\<open>_start_subprocess\<close>, lines 206 to 260. \<open>start_command\<close> is the command the \<^verbatim>\<open>try\<close>
  block builds (lines 212 to 244); on a host that is not POSIX the command is the script
  host with the encoded wrapper, whatever was collected before. The fixed options of
  \<^verbatim>\<open>Popen\<close> (no standard input, a pipe for the merged output, a new session) carry no
  choice and are left out of the event.
\<close>

definition start_command :: "env \<Rightarrow> handle \<Rightarrow> exc + string list" where
  "start_command e h =
     (let command =
            (case p_user h of
               None \<Rightarrow> []
             | Some u \<Rightarrow>
                 if is_posix (os e) \<and> user_name u \<noteq> getuser e
                 then [''sudo'', ''-u'', user_name u, ''-i'', ''setsid'', ''-w'']
                 else [])
      in if is_posix (os e) then Inr (command @ p_args h)
         else (case start_job_wrapper e (p_args h) (p_user h) of
                 Inl x \<Rightarrow> Inl x
               | Inr encoded \<Rightarrow>
                   Inr [''powershell.exe'', ''-ExecutionPolicy'', ''Unrestricted'',
                        ''-EncodedCommand'', encoded]))"

text \<open>
  The \<^verbatim>\<open>except OSError\<close> clause, lines 258 to 260: an \<^verbatim>\<open>OSError\<close> is logged and turned
  into the result \<^verbatim>\<open>None\<close>; every other exception leaves the method.
\<close>

fun except_OSError :: "exc \<Rightarrow> event list \<Rightarrow> (exc + popen option) \<times> event list" where
  "except_OSError (OSError m) evs =
     (Inr None, evs @ [Info (''Process failed to start: '' @ m)])"
| "except_OSError x evs = (Inl x, evs)"

definition start_subprocess :: "env \<Rightarrow> handle \<Rightarrow> (exc + popen option) \<times> event list" where
  "start_subprocess e h =
     (case start_command e h of
        Inl x \<Rightarrow> except_OSError x []
      | Inr command \<Rightarrow>
          (let cmd_line_for_logger =
                 (if is_posix (os e) then shlex_join e command
                  else list2cmdline e (p_args h));
               evs = [Info (''Running command '' @ cmd_line_for_logger), Popen_call command]
           in case popen_result e command of
                Inl x \<Rightarrow> except_OSError x evs
              | Inr c \<Rightarrow> (Inr (Some (Popen c)), evs)))"

subsection \<open>Signalling\<close>

text \<open>
  \<^verbatim>\<open>_posix_signal_subprocess\<close>, lines 262 to 315. \<open>posix_signal_cmd\<close> is the command of
  lines 285 to 303.
\<close>

definition posix_signal_cmd ::
  "env \<Rightarrow> handle \<Rightarrow> popen \<Rightarrow> string \<Rightarrow> bool \<Rightarrow> string list" where
  "posix_signal_cmd e h p signal signal_subprocesses =
     (let cmd =
            (case p_user h of
               None \<Rightarrow> []
             | Some u \<Rightarrow>
                 if user_name u \<noteq> getuser e then [''sudo'', ''-u'', user_name u, ''-i'']
                 else []);
          signal_child = (case p_user h of None \<Rightarrow> False | Some u \<Rightarrow> True)
      in cmd @ [POSIX_SIGNAL_SUBPROC_SCRIPT e, str_int (proc_pid p), signal,
                str_bool signal_child, str_bool signal_subprocesses])"

definition posix_signal_subprocess ::
  "env \<Rightarrow> handle \<Rightarrow> string \<Rightarrow> bool \<Rightarrow> (exc + unit) \<times> event list" where
  "posix_signal_subprocess e h signal signal_subprocesses =
     (case p_process h of
        None \<Rightarrow> (Inl AssertionError, [])
      | Some p \<Rightarrow>
          (let cmd = posix_signal_cmd e h p signal signal_subprocesses;
               evs = [Info (''Running: '' @ shlex_join e cmd), Relay_call cmd]
           in case relay_result e cmd of
                Inl x \<Rightarrow> (Inl x, evs)
              | Inr (rc, out) \<Rightarrow>
                  (Inr (),
                   evs @ (if rc \<noteq> 0
                          then [Warning (''Failed to send signal '' @ apostrophe @ signal @
                                  apostrophe @ '' to subprocess '' @ str_int (proc_pid p) @
                                  '': '' @ out)]
                          else []))))"

subsection \<open>The world: the object, the log, and where \<^verbatim>\<open>run\<close> stands\<close>

text \<open>
  The control points of \<^verbatim>\<open>run\<close>, each named by the statement the thread executes next:
  line 138 (\<open>At_guard\<close>), 141 (\<open>At_spawn\<close>), 142 (\<open>At_set_latch\<close>), 143 to 145
  (\<open>At_start_failed\<close>), 146 to 148 (\<open>At_failed_callback\<close>), 150 (\<open>At_log_start\<close>), the
  \<^verbatim>\<open>readline\<close> of lines 159 and 161 (\<open>At_read\<close>), lines 162 and 163 with the line read
  (\<open>At_log_line\<close>), 165 (\<open>At_wait\<close>: about to call \<^verbatim>\<open>wait()\<close>; \<open>In_wait\<close>: inside it,
  waiting for the child), 167 and 168 (\<open>At_callback\<close>). \<open>Idle\<close>: \<^verbatim>\<open>run\<close> has not been
  called; \<open>Returned\<close> and \<open>Raised\<close>: how the call ended.
\<close>

datatype run_pc =
    Idle
  | At_guard
  | At_spawn
  | At_set_latch
  | At_start_failed
  | At_failed_callback
  | At_log_start
  | At_read
  | At_log_line string
  | At_wait
  | In_wait
  | At_callback
  | Returned
  | Raised exc

record world =
  obj :: handle
  trace :: "event list"
  pc :: run_pc

text \<open>\<^verbatim>\<open>notify\<close>, lines 170 to 185, and \<^verbatim>\<open>terminate\<close>, lines 187 to 204.\<close>

definition notify :: "env \<Rightarrow> world \<Rightarrow> (exc + unit) \<times> world" where
  "notify e w =
     (case p_process (obj w) of
        None \<Rightarrow> (Inr (), w)
      | Some p \<Rightarrow>
          (let h = (obj w)\<lparr>p_process := Some (poll (os e) p)\<rparr> in
           if returncode (poll (os e) p) = None then
             (if is_posix (os e) then
                (case posix_signal_subprocess e h ''term'' False of
                   (r, evs) \<Rightarrow> (r, w\<lparr>obj := h, trace := trace w @ evs\<rparr>))
              else
                (Inl (NotImplementedError ''Notify not implemented on non-posix yet''),
                 w\<lparr>obj := h\<rparr>))
           else (Inr (), w\<lparr>obj := h\<rparr>)))"

definition terminate :: "env \<Rightarrow> world \<Rightarrow> (exc + unit) \<times> world" where
  "terminate e w =
     (case p_process (obj w) of
        None \<Rightarrow> (Inr (), w)
      | Some p \<Rightarrow>
          (let h = (obj w)\<lparr>p_process := Some (poll (os e) p)\<rparr> in
           if returncode (poll (os e) p) = None then
             (if is_posix (os e) then
                (case posix_signal_subprocess e h ''kill'' True of
                   (r, evs) \<Rightarrow> (r, w\<lparr>obj := h, trace := trace w @ evs\<rparr>))
              else
                (Inr (),
                 w\<lparr>obj := h,
                   trace := trace w @
                     [Info (''Start killing the process tree with the root pid: '' @
                            str_int (proc_pid p)),
                      Kill_windows_process_tree (proc_pid p) True]\<rparr>))
           else (Inr (), w\<lparr>obj := h\<rparr>)))"

subsection \<open>\<^verbatim>\<open>run\<close>, step by step\<close>

text \<open>
  One statement of \<^verbatim>\<open>run\<close>, lines 133 to 168.

  The read of line 159. With an empty \<^verbatim>\<open>encoding\<close> (and no \<^verbatim>\<open>errors\<close>, \<^verbatim>\<open>text\<close>) \<^verbatim>\<open>Popen\<close>
  leaves the pipe in binary mode: \<^verbatim>\<open>readline\<close> returns bytes, which never equal the
  sentinel \<^verbatim>\<open>""\<close>, and \<^verbatim>\<open>rstrip\<close> with a string argument raises \<^verbatim>\<open>TypeError\<close> on them.
  In text mode the read raises \<^verbatim>\<open>UnicodeDecodeError\<close> when the decoder fails, and
  returns the next line otherwise.

  \<^verbatim>\<open>wait()\<close> of the standard library returns at once when \<^verbatim>\<open>returncode\<close> is set.
  Otherwise it waits for the child, on POSIX holding \<^verbatim>\<open>_waitpid_lock\<close> the while, sets
  \<^verbatim>\<open>returncode\<close> when the child has ended and gives the lock back: a blocked thread
  stays where it is.

  A control point past line 143 with no process object cannot be reached; the attribute
  access of the source would raise there.
\<close>

definition run_step :: "env \<Rightarrow> world \<Rightarrow> world" where
  "run_step e w =
     (case pc w of
        Idle \<Rightarrow> w
      | At_guard \<Rightarrow>
          (case p_process (obj w) of
             Some p \<Rightarrow> w\<lparr>pc := Raised (RuntimeError ''The process has already been run'')\<rparr>
           | None \<Rightarrow> w\<lparr>pc := At_spawn\<rparr>)
      | At_spawn \<Rightarrow>
          (case start_subprocess e (obj w) of
             (Inl x, evs) \<Rightarrow> w\<lparr>trace := trace w @ evs, pc := Raised x\<rparr>
           | (Inr r, evs) \<Rightarrow>
               w\<lparr>obj := (obj w)\<lparr>p_process := r\<rparr>, trace := trace w @ evs,
                 pc := At_set_latch\<rparr>)
      | At_set_latch \<Rightarrow> w\<lparr>obj := (obj w)\<lparr>p_has_started := True\<rparr>, pc := At_start_failed\<rparr>
      | At_start_failed \<Rightarrow>
          (case p_process (obj w) of
             None \<Rightarrow> w\<lparr>obj := (obj w)\<lparr>p_start_failed := True\<rparr>, pc := At_failed_callback\<rparr>
           | Some p \<Rightarrow> w\<lparr>pc := At_log_start\<rparr>)
      | At_failed_callback \<Rightarrow>
          w\<lparr>trace := trace w @ (if p_callback (obj w) then [Callback] else []),
            pc := Returned\<rparr>
      | At_log_start \<Rightarrow>
          (case p_process (obj w) of
             None \<Rightarrow> w\<lparr>pc := Raised (OtherError ''AttributeError'')\<rparr>
           | Some p \<Rightarrow>
               w\<lparr>trace := trace w @
                            [Info (''Command started as pid: '' @ str_int (proc_pid p))],
                 pc := At_read\<rparr>)
      | At_read \<Rightarrow>
          (case p_process (obj w) of
             None \<Rightarrow> w\<lparr>pc := Raised (OtherError ''AttributeError'')\<rparr>
           | Some p \<Rightarrow>
               if p_encoding (obj w) = [] then w\<lparr>pc := Raised (OtherError ''TypeError'')\<rparr>
               else if decoding_fails LOG_LINE_MAX_LENGTH p
               then w\<lparr>pc := Raised UnicodeDecodeError\<rparr>
               else
                 (case readline LOG_LINE_MAX_LENGTH (stdout p) of
                    (line, rest) \<Rightarrow>
                      w\<lparr>obj := (obj w)\<lparr>p_process :=
                                   Some (p\<lparr>stdout := rest,
                                           decode_error :=
                                             map_option (\<lambda>k. k - 1) (decode_error p)\<rparr>)\<rparr>,
                        pc := (if line = [] then At_wait else At_log_line line)\<rparr>))
      | At_log_line line \<Rightarrow>
          w\<lparr>trace := trace w @ [Info (rstrip [newline, carriage_return] line)],
            pc := At_read\<rparr>
      | At_wait \<Rightarrow>
          (case p_process (obj w) of
             None \<Rightarrow> w\<lparr>pc := Raised (OtherError ''AttributeError'')\<rparr>
           | Some p \<Rightarrow>
               (case returncode p of
                  Some c \<Rightarrow> w\<lparr>pc := At_callback\<rparr>
                | None \<Rightarrow>
                    w\<lparr>obj := (obj w)\<lparr>p_process :=
                                 Some (p\<lparr>waitpid_lock := (os e = Posix)\<rparr>)\<rparr>,
                      pc := In_wait\<rparr>))
      | In_wait \<Rightarrow>
          (case p_process (obj w) of
             None \<Rightarrow> w\<lparr>pc := Raised (OtherError ''AttributeError'')\<rparr>
           | Some p \<Rightarrow>
               (case os_status p of
                  None \<Rightarrow> w
                | Some c \<Rightarrow>
                    w\<lparr>obj := (obj w)\<lparr>p_process :=
                                 Some (p\<lparr>returncode := Some c, waitpid_lock := False\<rparr>)\<rparr>,
                      pc := At_callback\<rparr>))
      | At_callback \<Rightarrow>
          w\<lparr>trace := trace w @ (if p_callback (obj w) then [Callback] else []),
            pc := Returned\<rparr>
      | Returned \<Rightarrow> w
      | Raised x \<Rightarrow> w)"

text \<open>
  The call has ended, or the thread is blocked in \<^verbatim>\<open>wait\<close> on a child that is alive
  (with no other thread acting, for ever).
\<close>

fun finished :: "run_pc \<Rightarrow> bool" where
  "finished Idle = True"
| "finished Returned = True"
| "finished (Raised x) = True"
| "finished k = False"

definition blocked :: "world \<Rightarrow> bool" where
  "blocked w =
     (pc w = In_wait \<and>
      (case p_process (obj w) of None \<Rightarrow> False | Some p \<Rightarrow> os_status p = None))"

fun rank :: "run_pc \<Rightarrow> nat" where
  "rank At_guard = 10"
| "rank At_spawn = 9"
| "rank At_set_latch = 8"
| "rank At_start_failed = 7"
| "rank At_log_start = 6"
| "rank At_read = 5"
| "rank (At_log_line l) = 5"
| "rank At_wait = 4"
| "rank In_wait = 3"
| "rank At_failed_callback = 2"
| "rank At_callback = 2"
| "rank k = 0"

definition unread :: "world \<Rightarrow> nat" where
  "unread w =
     (case p_process (obj w) of None \<Rightarrow> 0 | Some p \<Rightarrow> 2 * length (stdout p)) +
     (case pc w of At_log_line l \<Rightarrow> 1 | _ \<Rightarrow> 0)"

text \<open>A read that returns text takes it out of the stream; this bounds the loop.\<close>

lemma readline_length:
  "readline n s = (line, rest) \<Longrightarrow>
     length line \<le> length s \<and> length rest = length s - length line"
proof -
  assume a: "readline n s = (line, rest)"
  let ?tw = "takeWhile (\<lambda>c. c \<noteq> newline) s"
  let ?whole = "if length ?tw < length s then ?tw @ [newline] else ?tw"
  have w: "length ?whole \<le> length s"
    using length_takeWhile_le [of "\<lambda>c. c \<noteq> newline" s] by auto
  have "(line, rest) = (take n ?whole, drop (length (take n ?whole)) s)"
    unfolding a [symmetric] by (simp add: readline_def Let_def)
  then have l: "line = take n ?whole" and r: "rest = drop (length line) s"
    by blast+
  from l w have "length line \<le> length s" by simp
  with r show ?thesis by simp
qed

lemma readline_consumes:
  "readline n s = (line, rest) \<Longrightarrow> line \<noteq> [] \<Longrightarrow> length rest < length s"
  using readline_length [of n s line rest] by (cases line) auto

text \<open>
  \<^verbatim>\<open>run\<close> to its end: the steps of the thread with no other thread acting. The result
  is the world in which the call has returned or raised, or in which it blocks for ever.
\<close>

function run_to_end :: "env \<Rightarrow> world \<Rightarrow> world" where
  "run_to_end e w =
     (if finished (pc w) \<or> blocked w then w else run_to_end e (run_step e w))"
  by pat_completeness auto
termination
proof (relation "measures [\<lambda>(e, w). rank (pc w), \<lambda>(e, w). unread w]")
  show "wf (measures [\<lambda>(e, w). rank (pc w), \<lambda>(e, w). unread w])"
    by simp
next
  fix e :: env and w :: world
  assume a: "\<not> (finished (pc w) \<or> blocked w)"
  show "((e, run_step e w), (e, w)) \<in> measures [\<lambda>(e, w). rank (pc w), \<lambda>(e, w). unread w]"
  proof (cases "pc w")
    case At_read
    then show ?thesis
      by (auto simp: run_step_def unread_def split: option.splits prod.splits
               dest!: readline_consumes)
  next
    case In_wait
    then show ?thesis
      using a by (auto simp: run_step_def blocked_def split: option.splits)
  qed (use a in \<open>auto simp: run_step_def unread_def
                      split: option.splits prod.splits sum.splits\<close>)
qed

text \<open>A call of \<^verbatim>\<open>run\<close>: the thread enters the method.\<close>

definition call_run :: "world \<Rightarrow> world" where
  "call_run w = w\<lparr>pc := At_guard\<rparr>"

definition run :: "env \<Rightarrow> world \<Rightarrow> world" where
  "run e w = run_to_end e (call_run w)"

definition new_world :: "handle \<Rightarrow> world" where
  "new_world h = \<lparr>obj = h, trace = [], pc = Idle\<rparr>"

text \<open>
  The iterator \<^verbatim>\<open>iter(_stream_readline_max_length, "")\<close> of line 161 over the text of the
  stream: the reads in order, up to the first that returns the empty string.
\<close>

function iter_readline :: "string \<Rightarrow> string list" where
  "iter_readline s =
     (case readline LOG_LINE_MAX_LENGTH s of
        (line, rest) \<Rightarrow> if line = [] then [] else line # iter_readline rest)"
  by pat_completeness auto
termination
  by (relation "measure length") (auto dest: readline_consumes [OF sym])

subsection \<open>Other threads\<close>

text \<open>
  What can happen between two statements of \<^verbatim>\<open>run\<close>: another thread calls
  \<^verbatim>\<open>notify\<close> or \<^verbatim>\<open>terminate\<close> (each taken as one step), or the child ends with a status.
\<close>

datatype action = Run_step | Call_notify | Call_terminate | Child_ends int

fun perform :: "env \<Rightarrow> action \<Rightarrow> world \<Rightarrow> world" where
  "perform e Run_step w = run_step e w"
| "perform e Call_notify w = snd (notify e w)"
| "perform e Call_terminate w = snd (terminate e w)"
| "perform e (Child_ends c) w =
     (case p_process (obj w) of
        None \<Rightarrow> w
      | Some p \<Rightarrow>
          (case os_status p of
             Some d \<Rightarrow> w
           | None \<Rightarrow> w\<lparr>obj := (obj w)\<lparr>p_process := Some (p\<lparr>os_status := Some c\<rparr>)\<rparr>\<rparr>))"

definition schedule :: "env \<Rightarrow> action list \<Rightarrow> world \<Rightarrow> world" where
  "schedule e as w = fold (perform e) as w"

text \<open>The thread of \<^verbatim>\<open>run\<close> is inside the loop of lines 161 to 163.\<close>

fun streaming :: "run_pc \<Rightarrow> bool" where
  "streaming At_read = True"
| "streaming (At_log_line l) = True"
| "streaming k = False"

subsection \<open>Reading a world\<close>

text \<open>The commands handed to the signal relay, in order.\<close>

fun relay_cmd :: "event \<Rightarrow> string list option" where
  "relay_cmd (Relay_call c) = Some c"
| "relay_cmd v = None"

definition relay_calls :: "event list \<Rightarrow> string list list" where
  "relay_calls evs = List.map_filter relay_cmd evs"

text \<open>
  A live process: the child has not ended, so that \<^verbatim>\<open>poll()\<close> returns \<^verbatim>\<open>None\<close>.
\<close>

definition alive :: "popen \<Rightarrow> bool" where
  "alive p = (returncode p = None \<and> os_status p = None)"

text \<open>The lines the loop of lines 161 to 163 logs for the text of a stream.\<close>

definition log_lines :: "string \<Rightarrow> event list" where
  "log_lines s = map (\<lambda>line. Info (rstrip [newline, carriage_return] line)) (iter_readline s)"

text \<open>How often the callback was called.\<close>

definition callbacks :: "event list \<Rightarrow> nat" where
  "callbacks evs = length (filter (\<lambda>v. v = Callback) evs)"

text \<open>
  The exception raised inside the \<^verbatim>\<open>try\<close> block of \<^verbatim>\<open>_start_subprocess\<close>, if any:
  while the command is built, or by \<^verbatim>\<open>Popen\<close>.
\<close>

definition raised_in_try :: "env \<Rightarrow> handle \<Rightarrow> exc option" where
  "raised_in_try e h =
     (case start_command e h of
        Inl x \<Rightarrow> Some x
      | Inr command \<Rightarrow>
          (case popen_result e command of Inl x \<Rightarrow> Some x | Inr c \<Rightarrow> None))"

text \<open>
  An environment for the examples: the host, the account \<open>worker\<close>, one outcome for every
  spawn, a relay that succeeds.
\<close>

definition example_env :: "os_name \<Rightarrow> (exc + child) \<Rightarrow> env" where
  "example_env host outcome =
     \<lparr>os = host, getuser = ''worker'',
      POSIX_SIGNAL_SUBPROC_SCRIPT = ''/pkg/_scripts/_posix/_signal_subprocess.sh'',
      popen_result = (\<lambda>cmd. outcome),
      relay_result = (\<lambda>cmd. Inr (0, [])),
      start_job_wrapper = (\<lambda>args u. Inr ''cGF5bG9hZA==''),
      shlex_join = concat,
      list2cmdline = concat\<rparr>"

text \<open>
  A child that writes two lines, an object as the constructor leaves it, and the world
  in which \<^verbatim>\<open>run\<close> has spawned the child and is about to read.
\<close>

definition example_output :: string where
  "example_output = ''one'' @ [newline] @ ''two'' @ [carriage_return, newline]"

definition example_child :: "int option \<Rightarrow> child" where
  "example_child ended =
     \<lparr>child_pid = 4242, child_output = example_output, child_decode_error = None,
      child_ended = ended\<rparr>"

text \<open>A child that writes more than the cap before any newline.\<close>

definition long_output :: string where
  "long_output = replicate 64000 (CHR ''x'') @ ''y''"

definition long_child :: child where
  "long_child =
     \<lparr>child_pid = 4243, child_output = long_output, child_decode_error = None,
      child_ended = None\<rparr>"

text \<open>
  A child whose first bytes are invalid in the encoding, and an output with a carriage
  return inside a line.
\<close>

definition bad_child :: child where
  "bad_child =
     \<lparr>child_pid = 4244, child_output = [], child_decode_error = Some 0,
      child_ended = None\<rparr>"

definition cr_output :: string where
  "cr_output = ''a'' @ [carriage_return] @ ''b'' @ [newline]"

definition cr_child :: child where
  "cr_child =
     \<lparr>child_pid = 4245, child_output = cr_output, child_decode_error = None,
      child_ended = None\<rparr>"

definition example_handle :: "session_user option \<Rightarrow> handle" where
  "example_handle u =
     \<lparr>p_args = [''sleep'', ''5''], p_encoding = ''utf-8'', p_user = u, p_callback = True,
      p_process = None, p_start_failed = False, p_has_started = False\<rparr>"

definition example_started :: "env \<Rightarrow> session_user option \<Rightarrow> world" where
  "example_started e u =
     schedule e (replicate 5 Run_step) (call_run (new_world (example_handle u)))"

section \<open>Properties\<close>

declare run_to_end.simps [simp del] iter_readline.simps [simp del] str_nat.simps [simp del]

lemma example_env_sel [simp]:
  "os (example_env host outcome) = host"
  "getuser (example_env host outcome) = ''worker''"
  "POSIX_SIGNAL_SUBPROC_SCRIPT (example_env host outcome) =
     ''/pkg/_scripts/_posix/_signal_subprocess.sh''"
  "popen_result (example_env host outcome) cmd = outcome"
  "relay_result (example_env host outcome) cmd = Inr (0, [])"
  "start_job_wrapper (example_env host outcome) args u = Inr ''cGF5bG9hZA==''"
  "shlex_join (example_env host outcome) = concat"
  "list2cmdline (example_env host outcome) = concat"
  by (simp_all add: example_env_def)

lemma relay_calls_append: "relay_calls (xs @ ys) = relay_calls xs @ relay_calls ys"
  by (simp add: relay_calls_def map_filter_def)

lemma example_world_sel [simp]:
  "p_process (obj (new_world (example_handle u))) = None"
  "p_user (obj (new_world (example_handle u))) = u"
  "p_callback (obj (new_world (example_handle u))) = True"
  "p_has_started (obj (new_world (example_handle u))) = False"
  "p_start_failed (obj (new_world (example_handle u))) = False"
  "trace (new_world (example_handle u)) = []"
  by (simp_all add: new_world_def example_handle_def)

subsection \<open>Polling and signalling\<close>

lemma poll_alive: "alive p \<Longrightarrow> poll host p = p"
  by (cases p) (simp add: alive_def poll_def)

lemma poll_sees_end:
  "returncode p \<noteq> None \<or> os_status p \<noteq> None \<and> \<not> (host = Posix \<and> waitpid_lock p) \<Longrightarrow>
   returncode (poll host p) \<noteq> None"
  by (auto simp: poll_def split: option.splits)

lemma newline_neq_cr [simp]: "newline \<noteq> carriage_return" "carriage_return \<noteq> newline"
  by (simp_all add: newline_def carriage_return_def)

lemma popen_decode_error_None [simp]:
  "decode_error p = None \<Longrightarrow> p\<lparr>decode_error := None\<rparr> = p"
  by (cases p) simp

lemma relay_calls_posix_signal:
  "p_process h = Some p \<Longrightarrow>
   relay_calls (snd (posix_signal_subprocess e h signal sub)) =
     [posix_signal_cmd e h p signal sub]"
  by (auto simp: posix_signal_subprocess_def Let_def relay_calls_def map_filter_def
           split: sum.splits prod.splits)

lemma poll_pid [simp]: "proc_pid (poll host p) = proc_pid p"
  by (simp add: poll_def split: option.splits)

lemma notify_unseen:
  assumes "is_posix (os e)" "p_process (obj w) = Some p" "returncode (poll (os e) p) = None"
  shows "relay_calls (trace (snd (notify e w))) =
           relay_calls (trace w) @ [posix_signal_cmd e (obj w) p ''term'' False]"
proof -
  let ?q = "poll (os e) p"
  let ?h = "(obj w)\<lparr>p_process := Some ?q\<rparr>"
  have c: "posix_signal_cmd e ?h ?q ''term'' False = posix_signal_cmd e (obj w) p ''term'' False"
    by (simp add: posix_signal_cmd_def)
  have "trace (snd (notify e w)) =
          trace w @ snd (posix_signal_subprocess e ?h ''term'' False)"
    using assms by (simp add: notify_def Let_def split: prod.splits)
  then show ?thesis
    using relay_calls_posix_signal [of ?h ?q e "''term''" False] c
    by (simp add: relay_calls_append)
qed

lemma terminate_unseen:
  assumes "is_posix (os e)" "p_process (obj w) = Some p" "returncode (poll (os e) p) = None"
  shows "relay_calls (trace (snd (terminate e w))) =
           relay_calls (trace w) @ [posix_signal_cmd e (obj w) p ''kill'' True]"
proof -
  let ?q = "poll (os e) p"
  let ?h = "(obj w)\<lparr>p_process := Some ?q\<rparr>"
  have c: "posix_signal_cmd e ?h ?q ''kill'' True = posix_signal_cmd e (obj w) p ''kill'' True"
    by (simp add: posix_signal_cmd_def)
  have "trace (snd (terminate e w)) =
          trace w @ snd (posix_signal_subprocess e ?h ''kill'' True)"
    using assms by (simp add: terminate_def Let_def split: prod.splits)
  then show ?thesis
    using relay_calls_posix_signal [of ?h ?q e "''kill''" True] c
    by (simp add: relay_calls_append)
qed

lemma notify_live:
  assumes "is_posix (os e)" "p_process (obj w) = Some p" "alive p"
  shows "relay_calls (trace (snd (notify e w))) =
           relay_calls (trace w) @ [posix_signal_cmd e (obj w) p ''term'' False]"
  using assms notify_unseen [of e w p] by (simp add: poll_alive alive_def)

lemma terminate_live:
  assumes "is_posix (os e)" "p_process (obj w) = Some p" "alive p"
  shows "relay_calls (trace (snd (terminate e w))) =
           relay_calls (trace w) @ [posix_signal_cmd e (obj w) p ''kill'' True]"
  using assms terminate_unseen [of e w p] by (simp add: poll_alive alive_def)

subsection \<open>The steps of \<^verbatim>\<open>run\<close>\<close>

lemma run_step_halted: "finished (pc w) \<or> blocked w \<Longrightarrow> run_step e w = w"
  by (cases "pc w") (auto simp: run_step_def blocked_def split: option.splits)

lemma run_to_end_halted: "finished (pc w) \<or> blocked w \<Longrightarrow> run_to_end e w = w"
  by (simp add: run_to_end.simps)

lemma run_to_end_step: "run_to_end e (run_step e w) = run_to_end e w"
proof (cases "finished (pc w) \<or> blocked w")
  case True
  then show ?thesis by (simp add: run_step_halted)
next
  case False
  then show ?thesis by (subst (2) run_to_end.simps) simp
qed

lemma run_to_end_funpow: "run_to_end e ((run_step e ^^ n) w) = run_to_end e w"
  by (induction n) (simp_all add: run_to_end_step)

lemma run_after:
  "(run_step e ^^ n) (call_run w) = w' \<Longrightarrow> finished (pc w') \<or> blocked w' \<Longrightarrow>
   run e w = w'"
  using run_to_end_funpow [of e n "call_run w"] by (simp add: run_to_end_halted run_def)

lemma readline_empty: "0 < n \<Longrightarrow> (fst (readline n s) = []) = (s = [])"
  by (cases s) (auto simp: readline_def Let_def takeWhile_eq_Nil_iff split: if_splits)

lemma read_loop:
  "pc w = At_read \<Longrightarrow> p_process (obj w) = Some p \<Longrightarrow> stdout p = s \<Longrightarrow>
   p_encoding (obj w) \<noteq> [] \<Longrightarrow> decode_error p = None \<Longrightarrow>
   (run_step e ^^ (2 * length (iter_readline s) + 1)) w =
     w\<lparr>obj := (obj w)\<lparr>p_process := Some (p\<lparr>stdout := []\<rparr>)\<rparr>,
       trace := trace w @ log_lines s, pc := At_wait\<rparr>"
proof (induction s arbitrary: w p rule: iter_readline.induct)
  case (1 s)
  obtain line rest where r: "readline LOG_LINE_MAX_LENGTH s = (line, rest)"
    by (cases "readline LOG_LINE_MAX_LENGTH s")
  show ?case
  proof (cases "line = []")
    case True
    with r have "s = []"
      using readline_empty [of LOG_LINE_MAX_LENGTH s] by (simp add: LOG_LINE_MAX_LENGTH_def)
    with r True have "rest = []" by (simp add: readline_def)
    with 1 r True show ?thesis
      by (simp add: iter_readline.simps [of s] log_lines_def run_step_def decoding_fails_def)
  next
    case False
    let ?w1 = "w\<lparr>obj := (obj w)\<lparr>p_process := Some (p\<lparr>stdout := rest\<rparr>)\<rparr>,
                 pc := At_log_line line\<rparr>"
    let ?w2 = "?w1\<lparr>trace := trace w @ [Info (rstrip [newline, carriage_return] line)],
                   pc := At_read\<rparr>"
    have s1: "run_step e w = ?w1"
      using 1(2,3,4,5,6) r False by (simp add: run_step_def decoding_fails_def)
    have s2: "run_step e ?w1 = ?w2"
      by (simp add: run_step_def)
    have it: "iter_readline s = line # iter_readline rest"
      using r False by (simp add: iter_readline.simps [of s])
    have "(run_step e ^^ (2 * length (iter_readline s) + 1)) w =
            (run_step e ^^ (2 * length (iter_readline rest) + 1)) (run_step e (run_step e w))"
      unfolding it by (simp add: funpow_swap1)
    also have "\<dots> = (run_step e ^^ (2 * length (iter_readline rest) + 1)) ?w2"
      by (simp only: s1 s2)
    also have "\<dots> = ?w2\<lparr>obj := (obj ?w2)\<lparr>p_process :=
                                          Some ((p\<lparr>stdout := rest\<rparr>)\<lparr>stdout := []\<rparr>)\<rparr>,
                          trace := trace ?w2 @ log_lines rest, pc := At_wait\<rparr>"
      using 1(1) [OF r [symmetric] False, of ?w2 "p\<lparr>stdout := rest\<rparr>"] 1(5,6) by simp
    finally show ?thesis
      by (simp add: log_lines_def it)
  qed
qed

subsection \<open>The ways through \<^verbatim>\<open>run\<close>\<close>

lemma start_subprocess_fresh:
  "start_subprocess e h = (Inr (Some p), evs) \<Longrightarrow> returncode p = None"
  by (auto simp: start_subprocess_def Let_def Popen_def
           split: sum.splits exc.splits elim!: except_OSError.elims)

lemma start_subprocess_raised:
  "raised_in_try e h = Some x \<Longrightarrow>
   \<exists>evs. start_subprocess e h = except_OSError x evs \<and> callbacks evs = 0"
  by (auto simp: raised_in_try_def start_subprocess_def Let_def callbacks_def split: sum.splits)

lemma callbacks_append: "callbacks (xs @ ys) = callbacks xs + callbacks ys"
  by (simp add: callbacks_def)

lemma run_guard_raises:
  assumes "p_process (obj w) = Some p"
  shows "run e w = w\<lparr>pc := Raised (RuntimeError ''The process has already been run'')\<rparr>"
proof (rule run_after [where n = 1])
  show "(run_step e ^^ 1) (call_run w) =
          w\<lparr>pc := Raised (RuntimeError ''The process has already been run'')\<rparr>"
    using assms by (simp add: call_run_def run_step_def)
qed simp

lemma run_spawn_raises:
  assumes "p_process (obj w) = None" "start_subprocess e (obj w) = (Inl x, evs)"
  shows "run e w = w\<lparr>trace := trace w @ evs, pc := Raised x\<rparr>"
proof (rule run_after [where n = 2])
  show "(run_step e ^^ 2) (call_run w) = w\<lparr>trace := trace w @ evs, pc := Raised x\<rparr>"
    using assms by (simp add: call_run_def run_step_def numeral_2_eq_2)
qed simp

lemma run_start_failed:
  assumes "p_process (obj w) = None" "start_subprocess e (obj w) = (Inr None, evs)"
  shows "run e w =
           w\<lparr>obj := (obj w)\<lparr>p_process := None, p_start_failed := True, p_has_started := True\<rparr>,
             trace := trace w @ evs @ (if p_callback (obj w) then [Callback] else []),
             pc := Returned\<rparr>"
proof (rule run_after [where n = 5])
  show "(run_step e ^^ 5) (call_run w) =
           w\<lparr>obj := (obj w)\<lparr>p_process := None, p_start_failed := True, p_has_started := True\<rparr>,
             trace := trace w @ evs @ (if p_callback (obj w) then [Callback] else []),
             pc := Returned\<rparr>"
    using assms by (simp add: call_run_def run_step_def numeral_eq_Suc)
qed simp

lemma run_to_read:
  assumes "p_process (obj w) = None" "start_subprocess e (obj w) = (Inr (Some p), evs)"
  shows "(run_step e ^^ 5) (call_run w) =
           w\<lparr>obj := (obj w)\<lparr>p_process := Some p, p_has_started := True\<rparr>,
             trace := trace w @ evs @
                      [Info (''Command started as pid: '' @ str_int (proc_pid p))],
             pc := At_read\<rparr>"
  using assms by (simp add: call_run_def run_step_def numeral_eq_Suc)

lemma start_subprocess_unlocked:
  "start_subprocess e h = (Inr (Some p), evs) \<Longrightarrow> \<not> waitpid_lock p"
  by (auto simp: start_subprocess_def Let_def Popen_def
           split: sum.splits exc.splits elim!: except_OSError.elims)

lemma run_spawned:
  assumes "p_process (obj w) = None" "start_subprocess e (obj w) = (Inr (Some p), evs)"
    and "p_encoding (obj w) \<noteq> []" "decode_error p = None"
  shows "run e w =
           w\<lparr>obj := (obj w)\<lparr>p_process :=
                              Some (p\<lparr>returncode := os_status p, stdout := [],
                                      waitpid_lock := (os_status p = None \<and> os e = Posix)\<rparr>),
                            p_has_started := True\<rparr>,
             trace := trace w @ evs @
                      [Info (''Command started as pid: '' @ str_int (proc_pid p))] @
                      log_lines (stdout p) @
                      (if os_status p \<noteq> None \<and> p_callback (obj w) then [Callback] else []),
             pc := (if os_status p = None then In_wait else Returned)\<rparr>"
proof -
  let ?w5 = "w\<lparr>obj := (obj w)\<lparr>p_process := Some p, p_has_started := True\<rparr>,
               trace := trace w @ evs @
                        [Info (''Command started as pid: '' @ str_int (proc_pid p))],
               pc := At_read\<rparr>"
  let ?n = "2 * length (iter_readline (stdout p)) + 1"
  let ?ww = "?w5\<lparr>obj := (obj ?w5)\<lparr>p_process := Some (p\<lparr>stdout := []\<rparr>)\<rparr>,
                 trace := trace ?w5 @ log_lines (stdout p), pc := At_wait\<rparr>"
  let ?wi = "?ww\<lparr>obj := (obj ?ww)\<lparr>p_process :=
                                       Some (p\<lparr>stdout := [], waitpid_lock := (os e = Posix)\<rparr>)\<rparr>,
                 pc := In_wait\<rparr>"
  have rc: "returncode p = None"
    using assms(2) by (rule start_subprocess_fresh)
  have a: "run e w = run_to_end e ?w5"
    using run_to_end_funpow [of e 5 "call_run w"] run_to_read [OF assms(1,2)]
    by (simp add: run_def)
  have b: "run_to_end e ?w5 = run_to_end e ?ww"
    using run_to_end_funpow [of e ?n ?w5] read_loop [of ?w5 p "stdout p" e] assms(3,4)
    by simp
  have "run_step e ?ww = ?wi"
    using rc by (simp add: run_step_def)
  then have c: "run_to_end e ?ww = run_to_end e ?wi"
    using run_to_end_step [of e ?ww] by simp
  show ?thesis
  proof (cases "os_status p")
    case None
    then have "blocked ?wi" by (simp add: blocked_def)
    then have "run_to_end e ?wi = ?wi" by (simp add: run_to_end_halted)
    with a b c None rc show ?thesis by simp
  next
    case (Some c')
    let ?wf = "?wi\<lparr>obj := (obj ?wi)\<lparr>p_process :=
                         Some (p\<lparr>returncode := Some c', stdout := [], waitpid_lock := False\<rparr>)\<rparr>,
                   trace := trace ?wi @ (if p_callback (obj w) then [Callback] else []),
                   pc := Returned\<rparr>"
    have "(run_step e ^^ 2) ?wi = ?wf"
      using Some by (simp add: run_step_def numeral_2_eq_2)
    then have "run_to_end e ?wi = ?wf"
      using run_to_end_funpow [of e 2 ?wi] by (simp add: run_to_end_halted)
    with a b c Some show ?thesis by simp
  qed
qed

lemma example_raised [simp]:
  "raised_in_try (example_env Posix (Inl x)) (obj (new_world (example_handle u))) = Some x"
  by (simp add: raised_in_try_def start_command_def is_posix_def Let_def)

lemma example_spawned [simp]:
  "start_subprocess (example_env Posix (Inr c)) (obj (new_world (example_handle None))) =
     (Inr (Some (Popen c)),
      [Info (''Running command '' @ ''sleep5''), Popen_call [''sleep'', ''5'']])"
  by (simp add: start_subprocess_def start_command_def is_posix_def Let_def
        new_world_def example_handle_def)

subsection \<open>The example world\<close>

lemma schedule_steps: "schedule e (replicate n Run_step) w = (run_step e ^^ n) w"
  by (induction n arbitrary: w) (simp_all add: schedule_def funpow_swap1)

lemma example_started_sel [simp]:
  "p_process (obj (example_started (example_env Posix (Inr c)) u)) = Some (Popen c)"
  "p_user (obj (example_started (example_env Posix (Inr c)) u)) = u"
  "relay_calls (trace (example_started (example_env Posix (Inr c)) u)) = []"
  "pc (example_started (example_env Posix (Inr c)) u) = At_read"
proof -
  let ?e = "example_env Posix (Inr c)"
  let ?w = "new_world (example_handle u)"
  define evs where "evs = snd (start_subprocess ?e (obj ?w))"
  have "fst (start_subprocess ?e (obj ?w)) = Inr (Some (Popen c))"
    by (simp add: start_subprocess_def start_command_def Let_def is_posix_def)
  then have s: "start_subprocess ?e (obj ?w) = (Inr (Some (Popen c)), evs)"
    by (simp add: evs_def prod_eq_iff)
  have r: "relay_calls evs = []"
    by (simp add: evs_def start_subprocess_def start_command_def Let_def is_posix_def
          relay_calls_def map_filter_def)
  have "example_started ?e u =
          ?w\<lparr>obj := (obj ?w)\<lparr>p_process := Some (Popen c), p_has_started := True\<rparr>,
             trace := trace ?w @ evs @
                      [Info (''Command started as pid: '' @ str_int (proc_pid (Popen c)))],
             pc := At_read\<rparr>"
    unfolding example_started_def schedule_steps
    by (rule run_to_read [OF _ s]) simp
  then show
    "p_process (obj (example_started ?e u)) = Some (Popen c)"
    "p_user (obj (example_started ?e u)) = u"
    "relay_calls (trace (example_started ?e u)) = []"
    "pc (example_started ?e u) = At_read"
    using r by (simp_all add: relay_calls_append relay_calls_def map_filter_def)
qed

lemma example_started_encoding [simp]:
  "p_encoding (obj (example_started e u)) \<noteq> []"
proof -
  have "\<And>w. p_encoding (obj (run_step e w)) = p_encoding (obj w)"
    by (auto simp: run_step_def split: run_pc.splits option.splits prod.splits sum.splits)
  then have "\<And>n w. p_encoding (obj ((run_step e ^^ n) w)) = p_encoding (obj w)"
    by (induct_tac n) simp_all
  then show ?thesis
    by (simp add: example_started_def schedule_steps call_run_def new_world_def
          example_handle_def)
qed

lemma example_child_alive [simp]: "alive (Popen (example_child None))"
  by (simp add: alive_def Popen_def example_child_def)

lemma example_decodes [simp]:
  "decode_error (Popen (example_child x)) = None"
  "decode_error (Popen long_child) = None"
  "decode_error (Popen cr_child) = None"
  by (simp_all add: Popen_def example_child_def long_child_def cr_child_def)

lemma example_encoding [simp]:
  "p_encoding (obj (new_world (example_handle u))) \<noteq> []"
  by (simp add: new_world_def example_handle_def)

lemma example_pid [simp]: "str_int (proc_pid (Popen (example_child x))) = ''4242''"
  by (simp add: Popen_def example_child_def str_int_def str_nat.simps digit_def)


subsection \<open>The reads of the loop\<close>

lemma readline_take:
  "\<exists>m. readline n s = (take m s, drop m s) \<and> m \<le> n \<and> m \<le> length s \<and>
       (m = n \<or> m = length s \<or> (0 < m \<and> s ! (m - 1) = newline))"
proof -
  let ?P = "\<lambda>c. c \<noteq> newline"
  let ?tw = "takeWhile ?P s"
  show ?thesis
  proof (cases "length ?tw < length s")
    case True
    have "s = ?tw @ dropWhile ?P s" by simp
    moreover from True have ne: "dropWhile ?P s \<noteq> []"
      by (metis append_Nil2 calculation less_irrefl)
    moreover from ne have "hd (dropWhile ?P s) = newline"
      using hd_dropWhile [of ?P s] by simp
    ultimately obtain r where s: "s = ?tw @ newline # r"
      by (metis list.collapse)
    have w: "?tw @ [newline] = take (Suc (length ?tw)) s"
      by (subst (3) s) simp
    have nth: "s ! length ?tw = newline"
      by (subst s) simp
    let ?m = "min n (Suc (length ?tw))"
    have "readline n s = (take ?m s, drop ?m s)"
      using True w by (simp add: readline_def Let_def min.commute)
    moreover have "?m \<le> n" "?m \<le> length s"
      using True by simp_all
    moreover have "?m = n \<or> ?m = length s \<or> (0 < ?m \<and> s ! (?m - 1) = newline)"
      using nth by (cases "n \<le> Suc (length ?tw)") (simp_all add: min_def)
    ultimately show ?thesis by blast
  next
    case False
    then have "length ?tw = length s"
      using length_takeWhile_le [of ?P s] by simp
    then have tw: "?tw = s"
      by (metis takeWhile_eq_take take_all_iff order_refl)
    let ?m = "min n (length s)"
    have wh: "(if length ?tw < length s then ?tw @ [newline] else ?tw) = s"
      unfolding if_not_P [OF False] by (rule tw)
    have "readline n s = (take n s, drop (length (take n s)) s)"
      by (simp only: readline_def Let_def wh)
    moreover have "take n s = take ?m s"
      by (cases "n \<le> length s") (simp_all add: min_def)
    ultimately have "readline n s = (take ?m s, drop ?m s)"
      by (simp add: min.commute)
    moreover have "?m = n \<or> ?m = length s" by (simp add: min_def)
    ultimately show ?thesis by (metis min.cobounded1 min.cobounded2)
  qed
qed

lemma readline_append: "readline n s = (line, rest) \<Longrightarrow> line @ rest = s"
  using readline_take [of n s] by auto

lemma iter_readline_lines:
  "line \<in> set (iter_readline s) \<Longrightarrow> line \<noteq> [] \<and> length line \<le> LOG_LINE_MAX_LENGTH"
proof (induction s rule: iter_readline.induct)
  case (1 s)
  obtain l rest where r: "readline LOG_LINE_MAX_LENGTH s = (l, rest)"
    by (cases "readline LOG_LINE_MAX_LENGTH s")
  show ?case
  proof (cases "l = []")
    case True
    with r 1(2) show ?thesis by (simp add: iter_readline.simps [of s])
  next
    case False
    have "length l \<le> LOG_LINE_MAX_LENGTH"
      using readline_take [of LOG_LINE_MAX_LENGTH s] r by auto
    with 1(1) [OF r [symmetric] False] 1(2) r False show ?thesis
      by (auto simp: iter_readline.simps [of s])
  qed
qed

lemma concat_iter_readline: "concat (iter_readline s) = s"
proof (induction s rule: iter_readline.induct)
  case (1 s)
  obtain l rest where r: "readline LOG_LINE_MAX_LENGTH s = (l, rest)"
    by (cases "readline LOG_LINE_MAX_LENGTH s")
  show ?case
  proof (cases "l = []")
    case True
    with r have "s = []"
      using readline_empty [of LOG_LINE_MAX_LENGTH s] by (simp add: LOG_LINE_MAX_LENGTH_def)
    then show ?thesis by (simp add: iter_readline.simps [of "[]"] readline_def)
  next
    case False
    with 1 [OF r [symmetric] False] r show ?thesis
      by (simp add: iter_readline.simps [of s] readline_append)
  qed
qed

lemma readline_capped:
  assumes "n \<le> length s" "newline \<notin> set (take n s)"
  shows "readline n s = (take n s, drop n s)"
proof -
  let ?P = "\<lambda>c. c \<noteq> newline"
  let ?tw = "takeWhile ?P s"
  have "takeWhile ?P (take n s @ drop n s) = take n s @ takeWhile ?P (drop n s)"
    using assms(2) by (intro takeWhile_append2) auto
  then have tw: "?tw = take n s @ takeWhile ?P (drop n s)"
    by simp
  have n: "length (take n s) = n"
    using assms(1) by simp
  have "take n ?tw = take n s"
    using assms(1) by (subst tw) simp
  moreover have "take n (?tw @ [newline]) = take n s"
    using assms(1) by (subst tw) simp
  ultimately show ?thesis
    using n by (simp add: readline_def Let_def del: length_take)
qed

lemma iter_readline_capped:
  assumes "LOG_LINE_MAX_LENGTH \<le> length s" "newline \<notin> set (take LOG_LINE_MAX_LENGTH s)"
  shows "iter_readline s =
           take LOG_LINE_MAX_LENGTH s # iter_readline (drop LOG_LINE_MAX_LENGTH s)"
proof -
  have "take LOG_LINE_MAX_LENGTH s \<noteq> []"
    using assms(1) by (auto simp: LOG_LINE_MAX_LENGTH_def)
  then show ?thesis
    using readline_capped [OF assms] by (simp add: iter_readline.simps [of s])
qed

lemma rstrip_spec:
  "\<exists>t. line = rstrip cs line @ t \<and> set t \<subseteq> set cs \<and>
       (rstrip cs line = [] \<or> last (rstrip cs line) \<notin> set cs)"
proof -
  let ?P = "\<lambda>c. c \<in> set cs"
  have "rev line = takeWhile ?P (rev line) @ dropWhile ?P (rev line)" by simp
  then have "line = rev (dropWhile ?P (rev line)) @ rev (takeWhile ?P (rev line))"
    by (metis rev_append rev_rev_ident)
  moreover have "set (rev (takeWhile ?P (rev line))) \<subseteq> set cs"
    by (auto dest: set_takeWhileD)
  moreover have "dropWhile ?P (rev line) = [] \<or> \<not> ?P (hd (dropWhile ?P (rev line)))"
    using hd_dropWhile [of ?P "rev line"] by blast
  then have "rstrip cs line = [] \<or> last (rstrip cs line) \<notin> set cs"
    by (auto simp: rstrip_def last_rev)
  ultimately show ?thesis
    unfolding rstrip_def by blast
qed

lemma read_loop_streaming:
  "pc w = At_read \<Longrightarrow> p_process (obj w) = Some p \<Longrightarrow> stdout p = s \<Longrightarrow>
   p_encoding (obj w) \<noteq> [] \<Longrightarrow> decode_error p = None \<Longrightarrow>
   k \<le> 2 * length (iter_readline s) \<Longrightarrow> streaming (pc ((run_step e ^^ k) w))"
proof (induction s arbitrary: w p k rule: iter_readline.induct)
  case (1 s)
  obtain line rest where r: "readline LOG_LINE_MAX_LENGTH s = (line, rest)"
    by (cases "readline LOG_LINE_MAX_LENGTH s")
  show ?case
  proof (cases "line = []")
    case True
    with r 1(7) have "k = 0" by (simp add: iter_readline.simps [of s])
    with 1(2) show ?thesis by simp
  next
    case False
    let ?w1 = "w\<lparr>obj := (obj w)\<lparr>p_process := Some (p\<lparr>stdout := rest\<rparr>)\<rparr>,
                 pc := At_log_line line\<rparr>"
    let ?w2 = "?w1\<lparr>trace := trace w @ [Info (rstrip [newline, carriage_return] line)],
                   pc := At_read\<rparr>"
    have s1: "run_step e w = ?w1"
      using 1(2,3,4,5,6) r False by (simp add: run_step_def decoding_fails_def)
    have s2: "run_step e ?w1 = ?w2"
      by (simp add: run_step_def)
    have it: "iter_readline s = line # iter_readline rest"
      using r False by (simp add: iter_readline.simps [of s])
    consider "k = 0" | "k = 1" | j where "k = Suc (Suc j)"
      by (metis One_nat_def not0_implies_Suc)
    then show ?thesis
    proof cases
      case 1
      with \<open>pc w = At_read\<close> show ?thesis by simp
    next
      case 2
      then show ?thesis by (simp add: s1)
    next
      case 3
      then have j: "j \<le> 2 * length (iter_readline rest)"
        using 1(7) by (simp add: it)
      have "(run_step e ^^ k) w = (run_step e ^^ j) ?w2"
        unfolding 3 by (simp add: funpow_swap1 s1 s2)
      moreover have "streaming (pc ((run_step e ^^ j) ?w2))"
        using 1(1) [OF r [symmetric] False, of ?w2 "p\<lparr>stdout := rest\<rparr>" j] j 1(5,6)
        by simp
      ultimately show ?thesis by simp
    qed
  qed
qed


subsection \<open>Universal newlines\<close>

lemma translate_no_cr: "carriage_return \<notin> set (translate cr s)"
  by (induction s arbitrary: cr) (auto simp: carriage_return_def)

lemma translate_without_cr: "carriage_return \<notin> set s \<Longrightarrow> translate False s = s"
  by (induction s) (auto simp: carriage_return_def)

lemma universal_newlines_no_cr: "carriage_return \<notin> set (universal_newlines s)"
  by (simp add: universal_newlines_def translate_no_cr)

lemma universal_newlines_without_cr:
  "carriage_return \<notin> set s \<Longrightarrow> universal_newlines s = s"
  by (simp add: universal_newlines_def translate_without_cr)

lemma universal_newlines_long [simp]: "universal_newlines long_output = long_output"
  by (rule universal_newlines_without_cr) (simp add: long_output_def carriage_return_def)

lemma universal_newlines_example:
  "universal_newlines example_output = ''one'' @ [newline] @ ''two'' @ [newline]"
  by (simp add: universal_newlines_def example_output_def newline_def carriage_return_def)

lemma universal_newlines_cr:
  "universal_newlines cr_output = ''a'' @ [newline] @ ''b'' @ [newline]"
  by (simp add: universal_newlines_def cr_output_def newline_def carriage_return_def)

lemma example_stdout [simp]:
  "stdout (Popen (example_child x)) = universal_newlines example_output"
  by (simp add: Popen_def example_child_def)

lemma long_stdout [simp]: "stdout (Popen long_child) = long_output"
  by (simp add: Popen_def long_child_def)

lemma cr_stdout [simp]: "stdout (Popen cr_child) = universal_newlines cr_output"
  by (simp add: Popen_def cr_child_def)

lemma log_lines_cr:
  "log_lines (universal_newlines cr_output) = [Info ''a'', Info ''b'']"
  by (simp add: universal_newlines_cr log_lines_def iter_readline.simps readline_def
        LOG_LINE_MAX_LENGTH_def rstrip_def newline_def carriage_return_def Let_def)

lemma length_iter_cr: "length (iter_readline (universal_newlines cr_output)) = 2"
  using arg_cong [OF log_lines_cr, of length] by (simp add: log_lines_def)

lemma log_lines_example:
  "log_lines (universal_newlines example_output) = [Info ''one'', Info ''two'']"
  by (simp add: universal_newlines_example log_lines_def iter_readline.simps readline_def
        LOG_LINE_MAX_LENGTH_def rstrip_def newline_def carriage_return_def Let_def)

lemma length_iter_example: "length (iter_readline (universal_newlines example_output)) = 2"
  using arg_cong [OF log_lines_example, of length] by (simp add: log_lines_def)

subsection \<open>Calling \<^verbatim>\<open>run\<close> again, and the failed start\<close>

lemma example_raised_any [simp]:
  "raised_in_try (example_env Posix (Inl x)) h = Some x"
  by (simp add: raised_in_try_def start_command_def is_posix_def Let_def)

lemma run_OSError:
  assumes "p_process (obj w) = None" "raised_in_try e (obj w) = Some (OSError m)"
  shows "\<exists>evs. callbacks evs = 0 \<and>
           run e w =
             w\<lparr>obj := (obj w)\<lparr>p_process := None, p_start_failed := True,
                              p_has_started := True\<rparr>,
               trace := trace w @ evs @ (if p_callback (obj w) then [Callback] else []),
               pc := Returned\<rparr>"
proof -
  obtain evs where s: "start_subprocess e (obj w) = except_OSError (OSError m) evs"
    and c: "callbacks evs = 0"
    using start_subprocess_raised [OF assms(2)] by blast
  let ?evs = "evs @ [Info (''Process failed to start: '' @ m)]"
  have "start_subprocess e (obj w) = (Inr None, ?evs)"
    using s by simp
  from run_start_failed [OF assms(1) this] c show ?thesis
    by (intro exI [of _ ?evs]) (simp add: callbacks_append callbacks_def)
qed

lemma run_step_keeps_process:
  assumes "p_process (obj w) = Some p" "pc w \<noteq> At_guard" "pc w \<noteq> At_spawn"
  shows "(\<exists>q. p_process (obj (run_step e w)) = Some q) \<and>
         pc (run_step e w) \<noteq> At_guard \<and> pc (run_step e w) \<noteq> At_spawn"
  using assms
  by (cases "pc w") (auto simp: run_step_def split: option.splits prod.splits)

lemma run_to_end_keeps_process:
  "p_process (obj w) = Some p \<Longrightarrow> pc w \<noteq> At_guard \<Longrightarrow> pc w \<noteq> At_spawn \<Longrightarrow>
   \<exists>q. p_process (obj (run_to_end e w)) = Some q"
proof (induction e w arbitrary: p rule: run_to_end.induct)
  case (1 e w)
  show ?case
  proof (cases "finished (pc w) \<or> blocked w")
    case True
    with 1(2) show ?thesis by (simp add: run_to_end_halted)
  next
    case False
    from run_step_keeps_process [OF 1(2,3,4), of e]
    obtain q where "p_process (obj (run_step e w)) = Some q"
      and "pc (run_step e w) \<noteq> At_guard" "pc (run_step e w) \<noteq> At_spawn"
      by blast
    from 1(1) [OF False this] show ?thesis
      by (simp add: run_to_end_step)
  qed
qed

lemma run_keeps_process:
  assumes "p_process (obj w) = None" "fst (start_subprocess e (obj w)) = Inr (Some p)"
  shows "\<exists>q. p_process (obj (run e w)) = Some q"
proof -
  let ?w2 = "w\<lparr>obj := (obj w)\<lparr>p_process := Some p\<rparr>,
               trace := trace w @ snd (start_subprocess e (obj w)), pc := At_set_latch\<rparr>"
  have "(run_step e ^^ 2) (call_run w) = ?w2"
    using assms
    by (cases "start_subprocess e (obj w)")
       (simp add: call_run_def run_step_def numeral_2_eq_2)
  then have "run e w = run_to_end e ?w2"
    using run_to_end_funpow [of e 2 "call_run w"] by (simp add: run_def)
  moreover have "\<exists>q. p_process (obj (run_to_end e ?w2)) = Some q"
    by (rule run_to_end_keeps_process [of _ p]) simp_all
  ultimately show ?thesis by simp
qed

lemma schedule_append: "schedule e (xs @ ys) w = schedule e ys (schedule e xs w)"
  by (simp add: schedule_def)

lemma example_failed [simp]:
  "start_subprocess (example_env Posix (Inl (OSError m))) (obj (new_world (example_handle None))) =
     (Inr None,
      [Info (''Running command '' @ ''sleep5''), Popen_call [''sleep'', ''5''],
       Info (''Process failed to start: '' @ m)])"
  by (simp add: start_subprocess_def start_command_def is_posix_def Let_def
        new_world_def example_handle_def)

subsection \<open>Construction\<close>

text \<open>
  Claim C8. Construction raises exactly when the argument vector is empty or a principal
  is given whose class does not match the host (not a \<^verbatim>\<open>PosixSessionUser\<close> on POSIX, not a
  \<^verbatim>\<open>WindowsSessionUser\<close> on Windows); what it raises is a \<^verbatim>\<open>ValueError\<close>, and then no
  object exists on which \<^verbatim>\<open>run\<close> could be called. In every other case the result is the
  object with no process, not started and not failed.
\<close>

theorem init_raises_iff:
  "((\<exists>x. init e args encoding user callback = Inl x) =
      (args = [] \<or>
       (\<exists>u. user = Some u \<and>
            (os e = Posix \<and> \<not> isinstance_PosixSessionUser u \<or>
             os e = Windows \<and> \<not> isinstance_WindowsSessionUser u)))) \<and>
   ((\<exists>x. init e args encoding user callback = Inl x) =
      (\<exists>m. init e args encoding user callback = Inl (ValueError m))) \<and>
   ((\<forall>x. init e args encoding user callback \<noteq> Inl x) =
      (init e args encoding user callback =
         Inr \<lparr>p_args = args, p_encoding = encoding, p_user = user, p_callback = callback,
              p_process = None, p_start_failed = False, p_has_started = False\<rparr>))"
  by (cases user; cases "os e") (auto simp: init_def is_windows_def)

theorem init_raises_iff_witness:
  "(\<exists>x. init (example_env Posix (Inl (OSError []))) [] ''utf-8'' None False = Inl x) \<and>
   (\<exists>x. init (example_env Posix (Inl (OSError []))) [''echo''] ''utf-8''
           (Some (WindowsSessionUser ''jobuser'')) False = Inl x) \<and>
   init (example_env Posix (Inl (OSError []))) [''echo''] ''utf-8''
     (Some (PosixSessionUser ''jobuser'')) True =
     Inr \<lparr>p_args = [''echo''], p_encoding = ''utf-8'',
          p_user = Some (PosixSessionUser ''jobuser''), p_callback = True,
          p_process = None, p_start_failed = False, p_has_started = False\<rparr>"
proof -
  let ?e = "example_env Posix (Inl (OSError []))"
  note empty = init_raises_iff [of ?e "[]" "''utf-8''" None False]
  note other = init_raises_iff [of ?e "[''echo'']" "''utf-8''"
                                   "Some (WindowsSessionUser ''jobuser'')" False]
  note good = init_raises_iff [of ?e "[''echo'']" "''utf-8''"
                                  "Some (PosixSessionUser ''jobuser'')" True]
  have a: "\<exists>x. init ?e [] ''utf-8'' None False = Inl x"
    using empty [THEN conjunct1] by simp
  have b: "\<exists>x. init ?e [''echo''] ''utf-8'' (Some (WindowsSessionUser ''jobuser'')) False
                = Inl x"
    using other [THEN conjunct1] by simp
  have "\<forall>x. init ?e [''echo''] ''utf-8'' (Some (PosixSessionUser ''jobuser'')) True \<noteq> Inl x"
    using good [THEN conjunct1] by simp
  with good [THEN conjunct2, THEN conjunct2] a b show ?thesis
    by blast
qed

subsection \<open>Cancelling when no process is alive\<close>

text \<open>
  Claim C4, as amended. \<^verbatim>\<open>notify\<close> and \<^verbatim>\<open>terminate\<close>, on either host, return without an
  exception and add nothing to the trace (no relay is run, no process tree is killed,
  nothing is logged) in each of these states: the object holds no process (before
  \<^verbatim>\<open>run\<close> has spawned one, or after a failed start); \<^verbatim>\<open>returncode\<close> is set (as it is once
  \<^verbatim>\<open>run\<close> has come back from \<^verbatim>\<open>wait()\<close>); the child has ended and \<^verbatim>\<open>poll()\<close> can see it,
  which on POSIX needs \<^verbatim>\<open>_waitpid_lock\<close> to be free.
\<close>

theorem cancel_is_noop_without_process_or_after_seen_exit:
  assumes "p_process (obj w) = None \<or>
           (\<exists>p. p_process (obj w) = Some p \<and>
                (returncode p \<noteq> None \<or>
                 os_status p \<noteq> None \<and> \<not> (os e = Posix \<and> waitpid_lock p)))"
  shows "fst (notify e w) = Inr () \<and> trace (snd (notify e w)) = trace w \<and>
         fst (terminate e w) = Inr () \<and> trace (snd (terminate e w)) = trace w"
proof (cases "p_process (obj w)")
  case None
  then show ?thesis by (simp add: notify_def terminate_def)
next
  case (Some p)
  with assms have "returncode (poll (os e) p) \<noteq> None"
    using poll_sees_end [of p "os e"] by auto
  with Some show ?thesis
    by (auto simp: notify_def terminate_def Let_def)
qed

theorem cancel_is_noop_without_process_or_after_seen_exit_witness:
  "fst (notify (example_env Windows (Inl (OSError [])))
          (new_world (example_handle None))) = Inr () \<and>
   trace (snd (notify (example_env Windows (Inl (OSError [])))
          (new_world (example_handle None)))) = [] \<and>
   fst (terminate (example_env Windows (Inl (OSError [])))
          (new_world (example_handle None))) = Inr () \<and>
   trace (snd (terminate (example_env Windows (Inl (OSError [])))
          (new_world (example_handle None)))) = [] \<and>
   exit_code (obj (run (example_env Posix (Inr (example_child (Some 3))))
          (new_world (example_handle None)))) = Some 3 \<and>
   fst (notify (example_env Posix (Inr (example_child (Some 3))))
          (run (example_env Posix (Inr (example_child (Some 3))))
             (new_world (example_handle None)))) = Inr () \<and>
   relay_calls (trace (snd (terminate (example_env Posix (Inr (example_child (Some 3))))
          (run (example_env Posix (Inr (example_child (Some 3))))
             (new_world (example_handle None)))))) = []"
proof -
  let ?w = "new_world (example_handle None)"
  let ?e = "example_env Posix (Inr (example_child (Some 3)))"
  note r = run_spawned [of ?w ?e "Popen (example_child (Some 3))",
                        OF _ example_spawned example_encoding example_decodes(1)]
  have x: "exit_code (obj (run ?e ?w)) = Some 3"
    using r by (simp add: exit_code_def Popen_def example_child_def)
  then have h: "p_process (obj (run ?e ?w)) = None \<or>
             (\<exists>p. p_process (obj (run ?e ?w)) = Some p \<and>
                  (returncode p \<noteq> None \<or>
                   os_status p \<noteq> None \<and> \<not> (os ?e = Posix \<and> waitpid_lock p)))"
    by (auto simp: exit_code_def split: option.splits)
  have t: "relay_calls (trace (run ?e ?w)) = []"
    using r by (simp add: relay_calls_def map_filter_def log_lines_def)
  show ?thesis
    using cancel_is_noop_without_process_or_after_seen_exit
            [of ?w "example_env Windows (Inl (OSError []))"]
          cancel_is_noop_without_process_or_after_seen_exit [OF h] x t
    by simp
qed

text \<open>
  Claim C4 as stated fails on POSIX while \<^verbatim>\<open>run\<close> is inside \<^verbatim>\<open>wait()\<close>. \<^verbatim>\<open>run\<close> has read
  the whole output and waits for the child, holding \<^verbatim>\<open>_waitpid_lock\<close>; the child ends
  with status 0; before the waiting thread has taken the status, another thread calls
  \<^verbatim>\<open>notify\<close> or \<^verbatim>\<open>terminate\<close>. \<^verbatim>\<open>poll()\<close> finds the lock taken and returns \<^verbatim>\<open>None\<close>, and
  the relay is run for the process that has ended.
\<close>

theorem cancel_after_exit_inside_wait_counterexample:
  "pc (run (example_env Posix (Inr (example_child None)))
         (new_world (example_handle None))) = In_wait \<and>
   map_option os_status (p_process (obj (schedule
      (example_env Posix (Inr (example_child None))) [Child_ends 0]
      (run (example_env Posix (Inr (example_child None)))
         (new_world (example_handle None)))))) = Some (Some 0) \<and>
   relay_calls (trace (snd (notify (example_env Posix (Inr (example_child None)))
      (schedule (example_env Posix (Inr (example_child None))) [Child_ends 0]
         (run (example_env Posix (Inr (example_child None)))
            (new_world (example_handle None))))))) =
     [[''/pkg/_scripts/_posix/_signal_subprocess.sh'', ''4242'', ''term'', ''False'',
       ''False'']] \<and>
   relay_calls (trace (snd (terminate (example_env Posix (Inr (example_child None)))
      (schedule (example_env Posix (Inr (example_child None))) [Child_ends 0]
         (run (example_env Posix (Inr (example_child None)))
            (new_world (example_handle None))))))) =
     [[''/pkg/_scripts/_posix/_signal_subprocess.sh'', ''4242'', ''kill'', ''False'',
       ''True'']]"
proof -
  let ?e = "example_env Posix (Inr (example_child None))"
  let ?w0 = "new_world (example_handle None)"
  let ?p = "Popen (example_child None)"
  let ?pw = "?p\<lparr>stdout := [], waitpid_lock := True\<rparr>"
  let ?pe = "?pw\<lparr>os_status := Some 0\<rparr>"
  let ?W = "schedule ?e [Child_ends 0] (run ?e ?w0)"
  note r = run_spawned [of ?w0 ?e ?p, OF _ example_spawned example_encoding example_decodes(1)]
  have st: "os_status ?p = None" "returncode ?p = None"
    by (simp_all add: Popen_def example_child_def)
  have pr: "p_process (obj (run ?e ?w0)) = Some ?pw" and pcw: "pc (run ?e ?w0) = In_wait"
    and tr: "relay_calls (trace (run ?e ?w0)) = []"
    and us: "p_user (obj (run ?e ?w0)) = None"
    using r st
    by (simp_all add: relay_calls_def map_filter_def log_lines_def Popen_def example_child_def)
  have W: "p_process (obj ?W) = Some ?pe" "trace ?W = trace (run ?e ?w0)"
    "p_user (obj ?W) = None"
    using pr us st by (simp_all add: schedule_def)
  have unseen: "returncode (poll (os ?e) ?pe) = None"
    using st by (simp add: poll_def)
  have n: "relay_calls (trace (snd (notify ?e ?W))) =
             [posix_signal_cmd ?e (obj ?W) ?pe ''term'' False]"
    using notify_unseen [OF _ W(1) unseen] tr W(2) by (simp add: is_posix_def)
  have t: "relay_calls (trace (snd (terminate ?e ?W))) =
             [posix_signal_cmd ?e (obj ?W) ?pe ''kill'' True]"
    using terminate_unseen [OF _ W(1) unseen] tr W(2) by (simp add: is_posix_def)
  have pid: "str_int (proc_pid ?pe) = ''4242''"
    using example_pid [of None] by simp
  have a: "map_option os_status (p_process (obj ?W)) = Some (Some 0)"
    by (simp add: W(1))
  from n t pid W(3) a pcw show ?thesis
    by (simp add: posix_signal_cmd_def Let_def str_bool_def)
qed

subsection \<open>Exceptions while spawning\<close>

text \<open>
  Claim C10. On an object that holds no process, when an exception is raised while the
  spawn command is built or by \<^verbatim>\<open>Popen\<close>: an \<^verbatim>\<open>OSError\<close> becomes the start-failed state
  and \<^verbatim>\<open>run\<close> returns; any other exception leaves \<^verbatim>\<open>run\<close>, and then the object is as it
  was before the call (the latch is not set, \<open>start_failed\<close> is not set) and the callback
  has not been called.
\<close>

theorem only_OSError_becomes_start_failed:
  assumes "p_process (obj w) = None" "raised_in_try e (obj w) = Some x"
  shows "if \<exists>m. x = OSError m
         then pc (run e w) = Returned \<and> failed_to_start (obj (run e w)) \<and>
              has_started (obj (run e w))
         else pc (run e w) = Raised x \<and> obj (run e w) = obj w \<and>
              callbacks (trace (run e w)) = callbacks (trace w)"
proof -
  obtain evs where s: "start_subprocess e (obj w) = except_OSError x evs"
    and c: "callbacks evs = 0"
    using start_subprocess_raised [OF assms(2)] by blast
  show ?thesis
  proof (cases "\<exists>m. x = OSError m")
    case True
    then obtain m where "x = OSError m" by blast
    with s have "start_subprocess e (obj w) =
                   (Inr None, evs @ [Info (''Process failed to start: '' @ m)])"
      by simp
    from run_start_failed [OF assms(1) this] True show ?thesis
      by (simp add: failed_to_start_def has_started_def)
  next
    case False
    with s have "start_subprocess e (obj w) = (Inl x, evs)"
      by (cases x) simp_all
    from run_spawn_raises [OF assms(1) this] False c show ?thesis
      by (simp add: callbacks_append)
  qed
qed

theorem only_OSError_becomes_start_failed_witness:
  "pc (run (example_env Posix (Inl (ValueError ''embedded null byte'')))
          (new_world (example_handle None))) = Raised (ValueError ''embedded null byte'') \<and>
   \<not> has_started (obj (run (example_env Posix (Inl (ValueError ''embedded null byte'')))
          (new_world (example_handle None)))) \<and>
   \<not> failed_to_start (obj (run (example_env Posix (Inl (ValueError ''embedded null byte'')))
          (new_world (example_handle None)))) \<and>
   callbacks (trace (run (example_env Posix (Inl (ValueError ''embedded null byte'')))
          (new_world (example_handle None)))) = 0 \<and>
   pc (run (example_env Posix (Inl (OSError ''No such file or directory'')))
          (new_world (example_handle None))) = Returned \<and>
   failed_to_start (obj (run (example_env Posix (Inl (OSError ''No such file or directory'')))
          (new_world (example_handle None)))) \<and>
   has_started (obj (run (example_env Posix (Inl (OSError ''No such file or directory'')))
          (new_world (example_handle None))))"
  using only_OSError_becomes_start_failed
          [of "new_world (example_handle None)"
              "example_env Posix (Inl (ValueError ''embedded null byte''))"
              "ValueError ''embedded null byte''"]
        only_OSError_becomes_start_failed
          [of "new_world (example_handle None)"
              "example_env Posix (Inl (OSError ''No such file or directory''))"
              "OSError ''No such file or directory''"]
  by (simp add: has_started_def failed_to_start_def callbacks_def)

subsection \<open>Signalling a live process on POSIX\<close>

text \<open>
  Claim C5. On POSIX, with a live process: \<^verbatim>\<open>notify\<close> runs the relay once, with the signal
  name \<open>term\<close> and the last parameter (signal the subprocesses too) \<open>False\<close>;
  \<^verbatim>\<open>terminate\<close> runs it once, with \<open>kill\<close> and \<open>True\<close>. Both name the script and the
  process id of the tracked process.
\<close>

theorem posix_signal_names_and_cascade:
  assumes "is_posix (os e)" "p_process (obj w) = Some p" "alive p"
  shows "\<exists>prefix escalate.
           relay_calls (trace (snd (notify e w))) =
             relay_calls (trace w) @
             [prefix @ [POSIX_SIGNAL_SUBPROC_SCRIPT e, str_int (proc_pid p), ''term'',
                        escalate, ''False'']] \<and>
           relay_calls (trace (snd (terminate e w))) =
             relay_calls (trace w) @
             [prefix @ [POSIX_SIGNAL_SUBPROC_SCRIPT e, str_int (proc_pid p), ''kill'',
                        escalate, ''True'']]"
  unfolding notify_live [OF assms] terminate_live [OF assms]
  by (auto simp: posix_signal_cmd_def Let_def str_bool_def)

theorem posix_signal_names_and_cascade_witness:
  "relay_calls (trace (snd (notify (example_env Posix (Inr (example_child None)))
       (example_started (example_env Posix (Inr (example_child None))) None)))) =
     [[''/pkg/_scripts/_posix/_signal_subprocess.sh'', ''4242'', ''term'', ''False'', ''False'']] \<and>
   relay_calls (trace (snd (terminate (example_env Posix (Inr (example_child None)))
       (example_started (example_env Posix (Inr (example_child None))) None)))) =
     [[''/pkg/_scripts/_posix/_signal_subprocess.sh'', ''4242'', ''kill'', ''False'', ''True'']]"
proof -
  let ?e = "example_env Posix (Inr (example_child None))"
  let ?w = "example_started ?e None"
  let ?p = "Popen (example_child None)"
  have n: "relay_calls (trace (snd (notify ?e ?w))) =
             [posix_signal_cmd ?e (obj ?w) ?p ''term'' False]"
    using notify_live [of ?e ?w ?p] by (simp add: is_posix_def)
  from posix_signal_names_and_cascade [of ?e ?w ?p]
  obtain prefix escalate where
    a: "relay_calls (trace (snd (notify ?e ?w))) =
          [prefix @ [''/pkg/_scripts/_posix/_signal_subprocess.sh'', ''4242'', ''term'',
                     escalate, ''False'']]"
    and b: "relay_calls (trace (snd (terminate ?e ?w))) =
          [prefix @ [''/pkg/_scripts/_posix/_signal_subprocess.sh'', ''4242'', ''kill'',
                     escalate, ''True'']]"
    by (auto simp: is_posix_def)
  from a n have "prefix = [] \<and> escalate = ''False''"
    by (simp add: posix_signal_cmd_def Let_def str_bool_def)
  with a b show ?thesis by simp
qed

text \<open>
  Claim C6. On POSIX, with a live process: when the principal of the object is not the
  invoking account, the relay command of \<^verbatim>\<open>terminate\<close> starts with
  \<open>sudo -u <principal> -i\<close> before the script; with no principal, or with the invoking
  account as principal, it starts with the script.
\<close>

theorem terminate_elevates_only_for_other_principal:
  assumes "is_posix (os e)" "p_process (obj w) = Some p" "alive p"
  shows "(\<forall>u. p_user (obj w) = Some u \<and> user_name u \<noteq> getuser e \<longrightarrow>
            (\<exists>params. relay_calls (trace (snd (terminate e w))) =
               relay_calls (trace w) @
               [[''sudo'', ''-u'', user_name u, ''-i''] @
                POSIX_SIGNAL_SUBPROC_SCRIPT e # params])) \<and>
         (p_user (obj w) = None \<or>
          (\<exists>u. p_user (obj w) = Some u \<and> user_name u = getuser e) \<longrightarrow>
            (\<exists>params. relay_calls (trace (snd (terminate e w))) =
               relay_calls (trace w) @ [POSIX_SIGNAL_SUBPROC_SCRIPT e # params]))"
  unfolding terminate_live [OF assms]
  by (auto simp: posix_signal_cmd_def Let_def)

theorem terminate_elevates_only_for_other_principal_witness:
  "relay_calls (trace (snd (terminate (example_env Posix (Inr (example_child None)))
       (example_started (example_env Posix (Inr (example_child None)))
          (Some (PosixSessionUser ''jobuser'')))))) =
     [[''sudo'', ''-u'', ''jobuser'', ''-i'', ''/pkg/_scripts/_posix/_signal_subprocess.sh'',
       ''4242'', ''kill'', ''True'', ''True'']] \<and>
   relay_calls (trace (snd (terminate (example_env Posix (Inr (example_child None)))
       (example_started (example_env Posix (Inr (example_child None)))
          (Some (PosixSessionUser ''worker'')))))) =
     [[''/pkg/_scripts/_posix/_signal_subprocess.sh'', ''4242'', ''kill'', ''True'', ''True'']]"
proof -
  let ?e = "example_env Posix (Inr (example_child None))"
  let ?p = "Popen (example_child None)"
  let ?other = "example_started ?e (Some (PosixSessionUser ''jobuser''))"
  let ?same = "example_started ?e (Some (PosixSessionUser ''worker''))"
  have o: "relay_calls (trace (snd (terminate ?e ?other))) =
             [posix_signal_cmd ?e (obj ?other) ?p ''kill'' True]"
    using terminate_live [of ?e ?other ?p] by (simp add: is_posix_def)
  have s: "relay_calls (trace (snd (terminate ?e ?same))) =
             [posix_signal_cmd ?e (obj ?same) ?p ''kill'' True]"
    using terminate_live [of ?e ?same ?p] by (simp add: is_posix_def)
  from terminate_elevates_only_for_other_principal [of ?e ?other ?p]
  obtain params where
    "relay_calls (trace (snd (terminate ?e ?other))) =
       [[''sudo'', ''-u'', ''jobuser'', ''-i''] @
        ''/pkg/_scripts/_posix/_signal_subprocess.sh'' # params]"
    by (auto simp: is_posix_def)
  moreover from this o have "params = [''4242'', ''kill'', ''True'', ''True'']"
    by (simp add: posix_signal_cmd_def Let_def str_bool_def)
  moreover
  from terminate_elevates_only_for_other_principal [of ?e ?same ?p]
  obtain params' where
    "relay_calls (trace (snd (terminate ?e ?same))) =
       [''/pkg/_scripts/_posix/_signal_subprocess.sh'' # params']"
    by (auto simp: is_posix_def)
  moreover from this s have "params' = [''4242'', ''kill'', ''True'', ''True'']"
    by (simp add: posix_signal_cmd_def Let_def str_bool_def)
  ultimately show ?thesis by simp
qed


text \<open>
  Claim C9. On POSIX, with a live process: the fourth parameter of the relay (signal as
  the child's principal) is \<open>True\<close> whenever the object has a principal and \<open>False\<close> exactly
  when it has none; when the principal is the invoking account only the \<open>sudo\<close> prefix is
  left out.
\<close>

theorem relay_escalates_iff_principal_configured:
  assumes "is_posix (os e)" "p_process (obj w) = Some p" "alive p"
  shows "\<exists>prefix.
           relay_calls (trace (snd (notify e w))) =
             relay_calls (trace w) @
             [prefix @ [POSIX_SIGNAL_SUBPROC_SCRIPT e, str_int (proc_pid p), ''term'',
                        (if p_user (obj w) = None then ''False'' else ''True''), ''False'']] \<and>
           relay_calls (trace (snd (terminate e w))) =
             relay_calls (trace w) @
             [prefix @ [POSIX_SIGNAL_SUBPROC_SCRIPT e, str_int (proc_pid p), ''kill'',
                        (if p_user (obj w) = None then ''False'' else ''True''), ''True'']] \<and>
           ((\<exists>u. p_user (obj w) = Some u \<and> user_name u = getuser e) \<longrightarrow> prefix = [])"
  unfolding notify_live [OF assms] terminate_live [OF assms]
  by (cases "p_user (obj w)") (auto simp: posix_signal_cmd_def Let_def str_bool_def)

theorem relay_escalates_iff_principal_configured_witness:
  "relay_calls (trace (snd (notify (example_env Posix (Inr (example_child None)))
       (example_started (example_env Posix (Inr (example_child None)))
          (Some (PosixSessionUser ''worker'')))))) =
     [[''/pkg/_scripts/_posix/_signal_subprocess.sh'', ''4242'', ''term'', ''True'', ''False'']] \<and>
   relay_calls (trace (snd (terminate (example_env Posix (Inr (example_child None)))
       (example_started (example_env Posix (Inr (example_child None)))
          (Some (PosixSessionUser ''worker'')))))) =
     [[''/pkg/_scripts/_posix/_signal_subprocess.sh'', ''4242'', ''kill'', ''True'', ''True'']]"
  using relay_escalates_iff_principal_configured
          [of "example_env Posix (Inr (example_child None))"
              "example_started (example_env Posix (Inr (example_child None)))
                 (Some (PosixSessionUser ''worker''))"
              "Popen (example_child None)"]
  by (auto simp: is_posix_def)

subsection \<open>Forwarding the output\<close>




subsection \<open>Calling \<^verbatim>\<open>run\<close> a second time\<close>

text \<open>
  Claim C1, as amended. The guard of line 138 tests for the process object: a call of
  \<^verbatim>\<open>run\<close> passes the guard exactly when the object holds no process. Whenever the
  object holds a process, \<^verbatim>\<open>run\<close> raises \<^verbatim>\<open>RuntimeError\<close> and changes nothing else; so
  after a call that has spawned the child, every further call raises, whatever the
  environment of the further call.
\<close>

theorem run_refused_once_process_exists:
  "pc (run_step e (call_run w)) =
     (if p_process (obj w) = None then At_spawn
      else Raised (RuntimeError ''The process has already been run'')) \<and>
   (p_process (obj w) \<noteq> None \<longrightarrow>
      run e w = w\<lparr>pc := Raised (RuntimeError ''The process has already been run'')\<rparr>) \<and>
   (p_process (obj w) = None \<and> fst (start_subprocess e (obj w)) = Inr (Some p) \<longrightarrow>
      run e' (run e w) =
        (run e w)\<lparr>pc := Raised (RuntimeError ''The process has already been run'')\<rparr>)"
proof -
  have a: "pc (run_step e (call_run w)) =
     (if p_process (obj w) = None then At_spawn
      else Raised (RuntimeError ''The process has already been run''))"
    by (simp add: run_step_def call_run_def split: option.splits)
  have b: "p_process (obj w) \<noteq> None \<longrightarrow>
      run e w = w\<lparr>pc := Raised (RuntimeError ''The process has already been run'')\<rparr>"
    using run_guard_raises by blast
  have c: "p_process (obj w) = None \<and> fst (start_subprocess e (obj w)) = Inr (Some p) \<longrightarrow>
      run e' (run e w) =
        (run e w)\<lparr>pc := Raised (RuntimeError ''The process has already been run'')\<rparr>"
    using run_keeps_process [of w e p] run_guard_raises [of "run e w" _ e'] by blast
  from a b c show ?thesis by blast
qed

theorem run_refused_once_process_exists_witness:
  "exit_code (obj (run (example_env Posix (Inr (example_child (Some 3))))
      (new_world (example_handle None)))) = Some 3 \<and>
   pc (run (example_env Posix (Inr (example_child (Some 3))))
      (new_world (example_handle None))) = Returned \<and>
   pc (run (example_env Posix (Inr (example_child (Some 3))))
        (run (example_env Posix (Inr (example_child (Some 3))))
           (new_world (example_handle None)))) =
     Raised (RuntimeError ''The process has already been run'')"
proof -
  let ?e = "example_env Posix (Inr (example_child (Some 3)))"
  let ?w = "new_world (example_handle None)"
  note r = run_spawned [of ?w ?e "Popen (example_child (Some 3))",
                        OF _ example_spawned example_encoding example_decodes(1)]
  have x: "exit_code (obj (run ?e ?w)) = Some 3" and y: "pc (run ?e ?w) = Returned"
    using r by (simp_all add: exit_code_def Popen_def example_child_def)
  have "run ?e (run ?e ?w) =
          (run ?e ?w)\<lparr>pc := Raised (RuntimeError ''The process has already been run'')\<rparr>"
    using run_refused_once_process_exists
            [of ?e ?w "Popen (example_child (Some 3))" ?e, THEN conjunct2, THEN conjunct2]
    by simp
  then have "pc (run ?e (run ?e ?w)) =
               Raised (RuntimeError ''The process has already been run'')"
    by simp
  with x y show ?thesis by blast
qed

text \<open>
  Claim C1 as stated fails after a failed start: \<^verbatim>\<open>_start_subprocess\<close> has returned
  \<^verbatim>\<open>None\<close>, the object still holds no process, and the second call of \<^verbatim>\<open>run\<close> passes
  the guard, tries the spawn again and returns; the callback has then been called twice.
\<close>

theorem second_run_after_failed_start_counterexample:
  "failed_to_start (obj (run (example_env Posix (Inl (OSError ''No such file or directory'')))
      (new_world (example_handle None)))) \<and>
   pc (run (example_env Posix (Inl (OSError ''No such file or directory'')))
        (run (example_env Posix (Inl (OSError ''No such file or directory'')))
           (new_world (example_handle None)))) = Returned \<and>
   callbacks (trace (run (example_env Posix (Inl (OSError ''No such file or directory'')))
        (run (example_env Posix (Inl (OSError ''No such file or directory'')))
           (new_world (example_handle None))))) = 2"
proof -
  let ?e = "example_env Posix (Inl (OSError ''No such file or directory''))"
  let ?w0 = "new_world (example_handle None)"
  obtain evs where c1: "callbacks evs = 0" and r1:
    "run ?e ?w0 =
       ?w0\<lparr>obj := (obj ?w0)\<lparr>p_process := None, p_start_failed := True,
                               p_has_started := True\<rparr>,
           trace := trace ?w0 @ evs @ (if p_callback (obj ?w0) then [Callback] else []),
           pc := Returned\<rparr>"
    using run_OSError [of ?w0 ?e "''No such file or directory''"] by auto
  let ?w1 = "run ?e ?w0"
  have n: "p_process (obj ?w1) = None" and cb: "p_callback (obj ?w1)"
    and t1: "callbacks (trace ?w1) = 1"
    using c1 by (simp_all add: r1 callbacks_append) (simp add: callbacks_def)
  obtain evs' where c2: "callbacks evs' = 0" and r2:
    "run ?e ?w1 =
       ?w1\<lparr>obj := (obj ?w1)\<lparr>p_process := None, p_start_failed := True,
                               p_has_started := True\<rparr>,
           trace := trace ?w1 @ evs' @ (if p_callback (obj ?w1) then [Callback] else []),
           pc := Returned\<rparr>"
    using run_OSError [OF n, of ?e "''No such file or directory''"] by auto
  have a: "failed_to_start (obj ?w1)"
    by (simp add: r1 failed_to_start_def)
  have b: "pc (run ?e ?w1) = Returned"
    by (subst r2) simp
  have c: "callbacks (trace (run ?e ?w1)) = 2"
    using t1 c2 cb by (subst r2) (simp add: callbacks_append, simp add: callbacks_def)
  from a b c show ?thesis by blast
qed

subsection \<open>The order of the writes after a failed start\<close>

text \<open>
  Claim C2. The executable does not exist and \<^verbatim>\<open>Popen\<close> raises an \<^verbatim>\<open>OSError\<close>. After
  three statements of \<^verbatim>\<open>run\<close> (the guard, the spawn, line 142) the latch is set and
  \<open>failed_to_start\<close> is still false: line 145 comes after line 142. The claim has the two
  writes in the other order.
\<close>

theorem latch_released_before_start_failed:
  "has_started (obj (schedule (example_env Posix (Inl (OSError ''No such file or directory'')))
      (replicate 3 Run_step) (call_run (new_world (example_handle None))))) \<and>
   \<not> failed_to_start (obj (schedule
      (example_env Posix (Inl (OSError ''No such file or directory'')))
      (replicate 3 Run_step) (call_run (new_world (example_handle None))))) \<and>
   pc (schedule (example_env Posix (Inl (OSError ''No such file or directory'')))
      (replicate 3 Run_step) (call_run (new_world (example_handle None)))) = At_start_failed \<and>
   failed_to_start (obj (schedule
      (example_env Posix (Inl (OSError ''No such file or directory'')))
      (replicate 4 Run_step) (call_run (new_world (example_handle None)))))"
  unfolding schedule_steps
  by (simp add: numeral_eq_Suc run_step_def call_run_def has_started_def failed_to_start_def)

subsection \<open>The exit code while the output is read\<close>

text \<open>
  Claim C3. The child writes two lines. \<^verbatim>\<open>run\<close> has logged the first and is about to
  read the second when the child ends with status 0 and another thread calls
  \<^verbatim>\<open>notify\<close>: the \<^verbatim>\<open>poll()\<close> of line 180 sets \<^verbatim>\<open>returncode\<close>, no signal is sent, and
  \<open>exit_code\<close> is \<open>Some 0\<close> while the thread of \<^verbatim>\<open>run\<close> is in the loop and the second line
  is unread.
\<close>

theorem notify_sets_exit_code_while_streaming:
  "exit_code (obj (schedule (example_env Posix (Inr (example_child None)))
      (replicate 7 Run_step @ [Child_ends 0])
      (call_run (new_world (example_handle None))))) = None \<and>
   exit_code (obj (schedule (example_env Posix (Inr (example_child None)))
      (replicate 7 Run_step @ [Child_ends 0, Call_notify])
      (call_run (new_world (example_handle None))))) = Some 0 \<and>
   streaming (pc (schedule (example_env Posix (Inr (example_child None)))
      (replicate 7 Run_step @ [Child_ends 0, Call_notify])
      (call_run (new_world (example_handle None))))) \<and>
   map_option stdout (p_process (obj (schedule (example_env Posix (Inr (example_child None)))
      (replicate 7 Run_step @ [Child_ends 0, Call_notify])
      (call_run (new_world (example_handle None)))))) =
     Some (''two'' @ [newline]) \<and>
   relay_calls (trace (schedule (example_env Posix (Inr (example_child None)))
      (replicate 7 Run_step @ [Child_ends 0, Call_notify])
      (call_run (new_world (example_handle None))))) = []"
proof -
  let ?e = "example_env Posix (Inr (example_child None))"
  let ?w0 = "new_world (example_handle None)"
  let ?p = "Popen (example_child None)"
  let ?w5 = "?w0\<lparr>obj := (obj ?w0)\<lparr>p_process := Some ?p, p_has_started := True\<rparr>,
               trace := trace ?w0 @
                        [Info (''Running command '' @ ''sleep5''), Popen_call [''sleep'', ''5'']] @
                        [Info (''Command started as pid: '' @ str_int (proc_pid ?p))],
               pc := At_read\<rparr>"
  have five: "(run_step ?e ^^ 5) (call_run ?w0) = ?w5"
    by (rule run_to_read) simp_all
  have r: "readline LOG_LINE_MAX_LENGTH (universal_newlines example_output) =
             (''one'' @ [newline], ''two'' @ [newline])"
    by (simp add: readline_def universal_newlines_example LOG_LINE_MAX_LENGTH_def newline_def
          Let_def)
  let ?q = "?p\<lparr>stdout := ''two'' @ [newline]\<rparr>"
  let ?w7 = "?w5\<lparr>obj := (obj ?w5)\<lparr>p_process := Some ?q\<rparr>,
                 trace := trace ?w5 @ [Info (rstrip [newline, carriage_return]
                                               (''one'' @ [newline]))],
                 pc := At_read\<rparr>"
  have "(run_step ?e ^^ 7) (call_run ?w0) = run_step ?e (run_step ?e ((run_step ?e ^^ 5) (call_run ?w0)))"
    by (simp add: numeral_eq_Suc)
  also have "\<dots> = ?w7"
    unfolding five using r by (simp add: run_step_def decoding_fails_def)
  finally have seven: "schedule ?e (replicate 7 Run_step) (call_run ?w0) = ?w7"
    by (simp add: schedule_steps)
  let ?q' = "?q\<lparr>os_status := Some 0\<rparr>"
  let ?w8 = "?w7\<lparr>obj := (obj ?w7)\<lparr>p_process := Some ?q'\<rparr>\<rparr>"
  have eight: "schedule ?e (replicate 7 Run_step @ [Child_ends 0]) (call_run ?w0) = ?w8"
    unfolding schedule_append seven by (simp add: schedule_def Popen_def example_child_def)
  let ?w9 = "?w8\<lparr>obj := (obj ?w8)\<lparr>p_process := Some (?q'\<lparr>returncode := Some 0\<rparr>)\<rparr>\<rparr>"
  have "schedule ?e (replicate 7 Run_step @ [Child_ends 0, Call_notify]) (call_run ?w0) =
          schedule ?e [Call_notify]
            (schedule ?e (replicate 7 Run_step @ [Child_ends 0]) (call_run ?w0))"
    using schedule_append [of ?e "replicate 7 Run_step @ [Child_ends 0]" "[Call_notify]"]
    by simp
  also have "\<dots> = ?w9"
    unfolding eight
    by (simp add: schedule_def notify_def poll_def Let_def Popen_def example_child_def)
  finally have nine:
    "schedule ?e (replicate 7 Run_step @ [Child_ends 0, Call_notify]) (call_run ?w0) = ?w9" .
  have a: "exit_code (obj ?w8) = None"
    by (simp add: exit_code_def Popen_def example_child_def)
  have b: "exit_code (obj ?w9) = Some 0" "streaming (pc ?w9)"
    "map_option stdout (p_process (obj ?w9)) = Some (''two'' @ [newline])"
    "relay_calls (trace ?w9) = []"
    by (simp_all add: exit_code_def relay_calls_def map_filter_def)
  show ?thesis
    unfolding eight nine using a b by blast
qed

end

